theory Spec2Isabelle
  imports Main "HOL-Library.AList" "HOL-Library.Sublist"
begin

section \<open>JavaScript values\<close>

text \<open>
  The snapshot type \<open>TSnapshot\<close> and the broker's payload type \<open>any\<close> are erased at run
  time; the code tests such values for truthiness (\<open>if (!base)\<close>, \<open>if (retained)\<close>) and
  for nullishness (\<open>initialSnapshot ?? null\<close>).  They are modelled by a small universe of
  JavaScript values.  Numbers are the integers plus \<open>NaN\<close>: no claim depends on arithmetic
  on payloads, only on which numbers are falsy.
\<close>

datatype jsval =
    JNull
  | JUndefined
  | JBoolean bool
  | JNumber int
  | JNaN
  | JString string
  | JObject "(string \<times> jsval) list"

text \<open>ECMAScript \<open>ToBoolean\<close>.\<close>

fun truthy :: "jsval \<Rightarrow> bool" where
  "truthy JNull = False"
| "truthy JUndefined = False"
| "truthy (JBoolean b) = b"
| "truthy (JNumber n) = (n \<noteq> 0)"
| "truthy JNaN = False"
| "truthy (JString s) = (s \<noteq> [])"
| "truthy (JObject fs) = True"

text \<open>The nullish coalescing operator \<open>a ?? b\<close>.\<close>

definition nullish :: "jsval \<Rightarrow> jsval \<Rightarrow> jsval" where
  "nullish a b = (if a = JNull \<or> a = JUndefined then b else a)"

text \<open>A thrown exception, carried as a value.\<close>

datatype exn = Exn string

section \<open>Wire formats\<close>

text \<open>\<open>interface TrackedEvent\<close> / \<open>EventWithSeq\<close>: \<open>{ event, clientSeq }\<close>.\<close>

record 'e trackedEvent =
  event :: 'e
  clientSeq :: int

text \<open>
  \<open>interface RemoteSnapshot\<close>: \<open>{ snapshot, serverSeq, echoClientSeq? }\<close>; an absent
  \<open>echoClientSeq\<close> (\<open>undefined\<close>) is \<open>None\<close>.
\<close>

record remoteSnapshot =
  snapshot :: jsval
  serverSeq :: int
  echoClientSeq :: "int option"

section \<open>The synchronization client on svelte/store (\<open>useRemoteMachine\<close>)\<close>

text \<open>
  \<open>UseRemoteMachineOptions\<close>.  The optimistic reducer may throw, so it returns a sum.
  An omitted \<open>initialSnapshot\<close> is \<open>JUndefined\<close>.  \<open>onConnectionChange\<close> is a callback
  of the consumer; the model keeps whether it was supplied and records its calls.
\<close>

record 'e options =
  optimistic :: "(jsval \<Rightarrow> 'e \<Rightarrow> exn + jsval) option"
  initialSnapshot :: jsval
  onConnectionChange :: bool

text \<open>Calls made to the collaborators handed to the client, in the order they happen.\<close>

datatype 'e call =
    OnConnectionChange bool
  | PublishEvent 'e int
  | RequestSnapshot

text \<open>
  The closure state of one client: the three writable stores and the two counters, a
  store being modelled by the value it holds.  Three more fields follow the store
  library, whose writes are not silent:
  \<^item> \<open>listening\<close>: the derived store \<open>state\<close> has been started by a first subscriber and
    is subscribed to \<open>baseState\<close> and \<open>pendingEvents\<close>;
  \<^item> \<open>stateValue\<close>: the value the derived store holds, \<open>undefined\<close> until its callback
    has returned once;
  \<^item> \<open>stuck\<close>: the library's queue of pending notifications, which all stores share,
    was left non-empty by an exception; from then on no write runs a subscriber.
  A fresh client is taken to start with that queue empty.
\<close>

record 'e client =
  baseState :: jsval
  connected :: bool
  pendingEvents :: "'e trackedEvent list"
  clientSeqCounter :: int
  lastServerSeq :: int
  calls :: "'e call list"
  listening :: bool
  stateValue :: jsval
  stuck :: bool

definition useRemoteMachine :: "'e options \<Rightarrow> 'e client" where
  "useRemoteMachine opts =
     \<lparr> baseState = nullish (initialSnapshot opts) JNull,
       connected = False,
       pendingEvents = [],
       clientSeqCounter = 0,
       lastServerSeq = - 1,
       calls = [],
       listening = False,
       stateValue = JUndefined,
       stuck = False \<rparr>"

text \<open>\<open>Array.prototype.reduce\<close> with an initial value and a callback that may throw.\<close>

fun reduce :: "('a \<Rightarrow> 'b \<Rightarrow> exn + 'a) \<Rightarrow> 'a \<Rightarrow> 'b list \<Rightarrow> exn + 'a" where
  "reduce f acc [] = Inr acc"
| "reduce f acc (x # xs) =
     (case f acc x of Inl e \<Rightarrow> Inl e | Inr acc' \<Rightarrow> reduce f acc' xs)"

text \<open>
  The callback of the derived store \<open>state\<close>, over \<open>[baseState, pendingEvents]\<close>.  An
  exception of the reducer leaves the callback, there being no \<open>try\<close> around the
  \<open>reduce\<close>.
\<close>

definition state :: "'e options \<Rightarrow> 'e client \<Rightarrow> exn + jsval" where
  "state opts c =
     (if \<not> truthy (baseState c) then Inr JNull
      else case optimistic opts of
        None \<Rightarrow> Inr (baseState c)
      | Some reducer \<Rightarrow>
          if length (pendingEvents c) = 0 then Inr (baseState c)
          else reduce (\<lambda>acc e. reducer acc (event e)) (baseState c) (pendingEvents c))"

definition pendingCount :: "'e client \<Rightarrow> nat" where
  "pendingCount c = length (pendingEvents c)"

text \<open>
  The store library's \<open>safe_not_equal(a, b)\<close>, with \<open>a\<close> the value a store holds and \<open>b\<close>
  the value written: a write of an equal primitive changes nothing and notifies nobody;
  a store holding an object always notifies.
\<close>

definition safeNotEqual :: "jsval \<Rightarrow> jsval \<Rightarrow> bool" where
  "safeNotEqual a b = (case a of JObject fs \<Rightarrow> True | _ \<Rightarrow> a \<noteq> b)"

text \<open>
  What a write to \<open>baseState\<close> or \<open>pendingEvents\<close> does once the new value is stored and
  differs from the old: while \<open>state\<close> is listening and the queue is not stuck, the
  library runs the derived callback before the write returns.  A returned value becomes
  the value of \<open>state\<close>; an exception leaves the write, hence the function that wrote,
  and leaves the queue stuck.
\<close>

definition sync :: "'e options \<Rightarrow> 'e client \<Rightarrow> exn option \<times> 'e client" where
  "sync opts c =
     (if listening c \<and> \<not> stuck c
      then (case state opts c of
              Inl x \<Rightarrow> (Some x, c\<lparr>stuck := True\<rparr>)
            | Inr v \<Rightarrow> (None, c\<lparr>stateValue := v\<rparr>))
      else (None, c))"

text \<open>
  \<open>state.subscribe(run)\<close> by a consumer; the result is the value handed to \<open>run\<close>.  The
  first subscriber starts the derived store, which subscribes to the two stores and
  runs its callback; an exception of the callback leaves \<open>subscribe\<close> with the derived
  store already listening.  A later subscriber is handed the value the store holds.
  Unsubscribing is not modelled.
\<close>

definition subscribeState :: "'e options \<Rightarrow> 'e client \<Rightarrow> (exn + jsval) \<times> 'e client" where
  "subscribeState opts c =
     (if listening c then (Inr (stateValue c), c)
      else (case state opts c of
              Inl x \<Rightarrow> (Inl x, c\<lparr>listening := True\<rparr>)
            | Inr v \<Rightarrow> (Inr v, c\<lparr>listening := True, stateValue := v\<rparr>)))"

text \<open>
  \<open>baseState.set(v)\<close>, \<open>pendingEvents.update(f)\<close> and the \<open>connected.update(...)\<close> of
  \<open>handleSnapshot\<close>, which calls \<open>onConnectionChange\<close> from inside the update.  The
  subscribers of \<open>connected\<close> are the consumer's and are taken to return.
\<close>

definition setBaseState :: "'e options \<Rightarrow> 'e client \<Rightarrow> jsval \<Rightarrow> exn option \<times> 'e client" where
  "setBaseState opts c v =
     (if safeNotEqual (baseState c) v then sync opts (c\<lparr>baseState := v\<rparr>) else (None, c))"

definition updatePendingEvents ::
  "'e options \<Rightarrow> 'e client \<Rightarrow> ('e trackedEvent list \<Rightarrow> 'e trackedEvent list) \<Rightarrow>
     exn option \<times> 'e client" where
  "updatePendingEvents opts c f = sync opts (c\<lparr>pendingEvents := f (pendingEvents c)\<rparr>)"

definition updateConnected :: "'e options \<Rightarrow> 'e client \<Rightarrow> 'e client" where
  "updateConnected opts c =
     (if \<not> connected c
      then (if onConnectionChange opts
            then c\<lparr>calls := calls c @ [OnConnectionChange True], connected := True\<rparr>
            else c\<lparr>connected := True\<rparr>)
      else c)"

text \<open>
  Statements in sequence: an exception of the first leaves the function, with the
  client as it is then.
\<close>

definition andThen ::
  "exn option \<times> 'a \<Rightarrow> ('a \<Rightarrow> exn option \<times> 'a) \<Rightarrow> exn option \<times> 'a" where
  "andThen m f = (case fst m of Some x \<Rightarrow> (Some x, snd m) | None \<Rightarrow> f (snd m))"

text \<open>
  \<open>handleSnapshot\<close> and \<open>send\<close> return the exception that left them, if any, and the
  client as the call left it.  The only exceptions are those of the derived callback,
  re-run by \<open>baseState.set\<close> and \<open>pendingEvents.update\<close>.
\<close>

definition handleSnapshot ::
  "'e options \<Rightarrow> 'e client \<Rightarrow> remoteSnapshot \<Rightarrow> exn option \<times> 'e client" where
  "handleSnapshot opts c rs =
     (if serverSeq rs \<le> lastServerSeq c then (None, c)
      else
        andThen
          (andThen
             (setBaseState opts (c\<lparr>lastServerSeq := serverSeq rs\<rparr>) (snapshot rs))
             (\<lambda>c2. case echoClientSeq rs of
                     None \<Rightarrow> (None, c2)
                   | Some echo \<Rightarrow>
                       updatePendingEvents opts c2 (filter (\<lambda>e. clientSeq e > echo))))
          (\<lambda>c3. (None, updateConnected opts c3)))"

definition send :: "'e options \<Rightarrow> 'e client \<Rightarrow> 'e \<Rightarrow> exn option \<times> 'e client" where
  "send opts c ev =
     (let seq = clientSeqCounter c + 1
      in andThen
           (updatePendingEvents opts (c\<lparr>clientSeqCounter := seq\<rparr>)
              (\<lambda>pending. pending @ [\<lparr>event = ev, clientSeq = seq\<rparr>]))
           (\<lambda>c2. (None, c2\<lparr>calls := calls c2 @ [PublishEvent ev seq]\<rparr>)))"

definition requestSnapshot :: "'e client \<Rightarrow> 'e client" where
  "requestSnapshot c = c\<lparr>calls := calls c @ [RequestSnapshot]\<rparr>"

section \<open>The synchronization client on runes (\<open>useRemoteMachineRunes\<close>)\<close>

text \<open>
  \<open>RuneUtils\<close>: \<open>state\<close> is required, \<open>derived\<close> and \<open>effect\<close> are optional; the model
  keeps which of the optional capabilities the consumer supplied.  A state rune is
  modelled by the value of its \<open>current\<close> field.
\<close>

record runeUtils =
  derived :: bool
  effect :: bool

text \<open>
  \<open>pendingCountState\<close> is the cell \<open>runes.state<number>(0)\<close> that stands in for the
  pending count when \<open>runes.derived\<close> is missing.  The cleanup handed to \<open>runes.effect\<close>
  only ends the subscription and has no counterpart here.
\<close>

record 'e runesClient =
  baseStateRune :: jsval
  connectedRune :: bool
  pendingEventsRune :: "'e trackedEvent list"
  pendingCountState :: nat
  runesClientSeqCounter :: int
  runesLastServerSeq :: int
  runesCalls :: "'e call list"

definition useRemoteMachineRunes :: "runeUtils \<Rightarrow> 'e options \<Rightarrow> 'e runesClient" where
  "useRemoteMachineRunes runes opts =
     \<lparr> baseStateRune = nullish (initialSnapshot opts) JNull,
       connectedRune = False,
       pendingEventsRune = [],
       pendingCountState = 0,
       runesClientSeqCounter = 0,
       runesLastServerSeq = - 1,
       runesCalls = [] \<rparr>"

text \<open>\<open>stateRune\<close>: the derived rune when \<open>runes.derived\<close> exists, else \<open>baseStateRune\<close> itself.\<close>

definition stateRune :: "runeUtils \<Rightarrow> 'e options \<Rightarrow> 'e runesClient \<Rightarrow> exn + jsval" where
  "stateRune runes opts c =
     (if derived runes then
        (if \<not> truthy (baseStateRune c) then Inr JNull
         else case optimistic opts of
           None \<Rightarrow> Inr (baseStateRune c)
         | Some reducer \<Rightarrow>
             if length (pendingEventsRune c) = 0 then Inr (baseStateRune c)
             else reduce (\<lambda>acc e. reducer acc (event e)) (baseStateRune c) (pendingEventsRune c))
      else Inr (baseStateRune c))"

definition pendingCountRune :: "runeUtils \<Rightarrow> 'e runesClient \<Rightarrow> nat" where
  "pendingCountRune runes c =
     (if derived runes then length (pendingEventsRune c) else pendingCountState c)"

definition handleSnapshotRunes ::
  "runeUtils \<Rightarrow> 'e options \<Rightarrow> 'e runesClient \<Rightarrow> remoteSnapshot \<Rightarrow> 'e runesClient" where
  "handleSnapshotRunes runes opts c rs =
     (if serverSeq rs \<le> runesLastServerSeq c then c
      else
        let c1 = c\<lparr>runesLastServerSeq := serverSeq rs\<rparr>;
            c2 = c1\<lparr>baseStateRune := snapshot rs\<rparr>;
            c3 = (case echoClientSeq rs of
                    None \<Rightarrow> c2
                  | Some echo \<Rightarrow>
                      let c' = c2\<lparr>pendingEventsRune :=
                                   filter (\<lambda>e. clientSeq e > echo) (pendingEventsRune c2)\<rparr>
                      in if \<not> derived runes
                         then c'\<lparr>pendingCountState := length (pendingEventsRune c')\<rparr>
                         else c')
        in if \<not> connectedRune c3
           then (let c4 = c3\<lparr>connectedRune := True\<rparr>
                 in if onConnectionChange opts
                    then c4\<lparr>runesCalls := runesCalls c4 @ [OnConnectionChange True]\<rparr>
                    else c4)
           else c3)"

definition sendRunes :: "runeUtils \<Rightarrow> 'e runesClient \<Rightarrow> 'e \<Rightarrow> 'e runesClient" where
  "sendRunes runes c ev =
     (let seq = runesClientSeqCounter c + 1;
          c1 = c\<lparr>runesClientSeqCounter := seq\<rparr>;
          c2 = c1\<lparr>pendingEventsRune := pendingEventsRune c1 @ [\<lparr>event = ev, clientSeq = seq\<rparr>]\<rparr>;
          c3 = (if \<not> derived runes
                then c2\<lparr>pendingCountState := length (pendingEventsRune c2)\<rparr>
                else c2)
      in c3\<lparr>runesCalls := runesCalls c3 @ [PublishEvent ev seq]\<rparr>)"

definition requestSnapshotRunes :: "'e runesClient \<Rightarrow> 'e runesClient" where
  "requestSnapshotRunes c = c\<lparr>runesCalls := runesCalls c @ [RequestSnapshot]\<rparr>"

section \<open>Feeding a client\<close>

text \<open>
  A sequence of broadcasts delivered to \<open>handleSnapshot\<close>, and the versions of those
  the handler did not discard: a broadcast counts as accepted when the handler changed
  the client.  A call that throws hands its exception to the caller, and the next
  broadcast meets the client as that call left it.
\<close>

fun acceptedVersions :: "'e options \<Rightarrow> 'e client \<Rightarrow> remoteSnapshot list \<Rightarrow> int list" where
  "acceptedVersions opts c [] = []"
| "acceptedVersions opts c (rs # rss) =
     (let c' = snd (handleSnapshot opts c rs)
      in (if c' = c then [] else [serverSeq rs]) @ acceptedVersions opts c' rss)"

fun acceptedVersionsRunes ::
  "runeUtils \<Rightarrow> 'e options \<Rightarrow> 'e runesClient \<Rightarrow> remoteSnapshot list \<Rightarrow> int list" where
  "acceptedVersionsRunes runes opts c [] = []"
| "acceptedVersionsRunes runes opts c (rs # rss) =
     (let c' = handleSnapshotRunes runes opts c rs
      in (if c' = c then [] else [serverSeq rs]) @ acceptedVersionsRunes runes opts c' rss)"

text \<open>A broadcast of version \<open>v\<close>, with any value and acknowledgment.\<close>

definition broadcast :: "jsval \<Rightarrow> int option \<Rightarrow> int \<Rightarrow> remoteSnapshot" where
  "broadcast s a v = \<lparr> snapshot = s, serverSeq = v, echoClientSeq = a \<rparr>"

text \<open>
  What reaches a client over its lifetime: calls of \<open>send\<close>, broadcasts delivered to
  \<open>handleSnapshot\<close>, calls of \<open>requestSnapshot\<close>, and a consumer that starts to observe
  the state (\<open>state.subscribe\<close> on the store client, a read of \<open>state.current\<close> on the
  runes client).  A step is the client a call leaves, whether it returned or threw.
\<close>

datatype 'e input =
    Send 'e
  | Deliver remoteSnapshot
  | Request
  | Observe

fun step :: "'e options \<Rightarrow> 'e client \<Rightarrow> 'e input \<Rightarrow> 'e client" where
  "step opts c (Send ev) = snd (send opts c ev)"
| "step opts c (Deliver rs) = snd (handleSnapshot opts c rs)"
| "step opts c Request = requestSnapshot c"
| "step opts c Observe = snd (subscribeState opts c)"

definition run :: "'e options \<Rightarrow> 'e client \<Rightarrow> 'e input list \<Rightarrow> 'e client" where
  "run opts c ins = foldl (step opts) c ins"

fun stepRunes :: "runeUtils \<Rightarrow> 'e options \<Rightarrow> 'e runesClient \<Rightarrow> 'e input \<Rightarrow> 'e runesClient" where
  "stepRunes runes opts c (Send ev) = sendRunes runes c ev"
| "stepRunes runes opts c (Deliver rs) = handleSnapshotRunes runes opts c rs"
| "stepRunes runes opts c Request = requestSnapshotRunes c"
| "stepRunes runes opts c Observe = c"

definition runRunes ::
  "runeUtils \<Rightarrow> 'e options \<Rightarrow> 'e runesClient \<Rightarrow> 'e input list \<Rightarrow> 'e runesClient" where
  "runRunes runes opts c ins = foldl (stepRunes runes opts) c ins"

text \<open>Every broadcast delivered in the inputs has a version of at most \<open>v\<close>.\<close>

fun noneAccepted :: "int \<Rightarrow> 'e input list \<Rightarrow> bool" where
  "noneAccepted v [] = True"
| "noneAccepted v (Deliver rs # ins) = (serverSeq rs \<le> v \<and> noneAccepted v ins)"
| "noneAccepted v (i # ins) = noneAccepted v ins"

text \<open>
  The snapshot of the last accepted broadcast of the inputs, for a client whose highest
  version seen is \<open>v\<close> and whose confirmed state is \<open>s\<close>; \<open>s\<close> when none is accepted.
\<close>

fun confirmedAfter :: "int \<Rightarrow> jsval \<Rightarrow> 'e input list \<Rightarrow> jsval" where
  "confirmedAfter v s [] = s"
| "confirmedAfter v s (Deliver rs # ins) =
     (if serverSeq rs \<le> v then confirmedAfter v s ins
      else confirmedAfter (serverSeq rs) (snapshot rs) ins)"
| "confirmedAfter v s (i # ins) = confirmedAfter v s ins"

text \<open>
  The visible state in the words of the specification: the confirmed state with the
  prediction function folded over the pending actions in issuance order, and the
  confirmed state itself when there is no prediction function.
\<close>

definition visibleSpec :: "(jsval \<Rightarrow> 'e \<Rightarrow> jsval) option \<Rightarrow> jsval \<Rightarrow> 'e list \<Rightarrow> jsval" where
  "visibleSpec p S as = (case p of None \<Rightarrow> S | Some f \<Rightarrow> foldl f S as)"

text \<open>A prediction function that never throws, as an optimistic reducer.\<close>

definition neverThrows :: "(jsval \<Rightarrow> 'e \<Rightarrow> jsval) \<Rightarrow> jsval \<Rightarrow> 'e \<Rightarrow> 'x + jsval" where
  "neverThrows f s ev = Inr (f s ev)"

subsection \<open>Sample collaborators\<close>

text \<open>The default \<open>options = {}\<close>.\<close>

definition defaultOptions :: "'e options" where
  "defaultOptions = \<lparr> optimistic = None, initialSnapshot = JUndefined, onConnectionChange = False \<rparr>"

text \<open>
  Rune utilities: all three, as the example component supplies them, and \<open>state\<close> alone.
\<close>

definition svelteRunes :: runeUtils where
  "svelteRunes = \<lparr> derived = True, effect = True \<rparr>"

definition stateOnlyRunes :: runeUtils where
  "stateOnlyRunes = \<lparr> derived = False, effect = False \<rparr>"

text \<open>
  \<open>type MachineEvent\<close> of the example machine, and two functions of shape
  \<open>(snapshot, event) => snapshot\<close>: one answers a fixed value, one throws.
\<close>

datatype machineEvent =
    Click string
  | UpdateLabel string string
  | Reset

definition constReducer :: "jsval \<Rightarrow> jsval \<Rightarrow> 'e \<Rightarrow> jsval" where
  "constReducer v s ev = v"

definition throwingReducer :: "exn \<Rightarrow> jsval \<Rightarrow> 'e \<Rightarrow> exn + jsval" where
  "throwingReducer x s ev = Inl x"

text \<open>Options with a prediction function that never throws, and with one that throws.\<close>

definition predictingOptions :: "machineEvent options" where
  "predictingOptions =
     defaultOptions\<lparr>optimistic := Some (neverThrows (constReducer (JString ''predicted'')))\<rparr>"

definition failingOptions :: "machineEvent options" where
  "failingOptions =
     defaultOptions\<lparr>optimistic := Some (throwingReducer (Exn ''prediction failed''))\<rparr>"

text \<open>
  A client of each kind that accepted the broadcast \<open>{ snapshot: {}, serverSeq: 1 }\<close>
  and then sent two events.
\<close>

definition sampleClient :: "machineEvent options \<Rightarrow> machineEvent client" where
  "sampleClient opts =
     run opts (useRemoteMachine opts)
       [Deliver (broadcast (JObject []) None 1), Send (Click ''button1''), Send Reset]"

definition sampleRunesClient :: "runeUtils \<Rightarrow> machineEvent options \<Rightarrow> machineEvent runesClient" where
  "sampleRunesClient runes opts =
     sendRunes runes
       (sendRunes runes
          (handleSnapshotRunes runes opts (useRemoteMachineRunes runes opts)
             (broadcast (JObject []) None 1))
          (Click ''button1''))
       Reset"

text \<open>A fresh client of each kind after three calls of \<open>send\<close>.\<close>

definition sentThree :: "machineEvent client" where
  "sentThree =
     run defaultOptions (useRemoteMachine defaultOptions)
       [Send (Click ''button1''), Send (Click ''button2''), Send Reset]"

text \<open>
  A store client whose reducer throws, after a consumer subscribed to \<open>state\<close> and one
  event was sent: the confirmed state is still \<open>null\<close>, so the callback has not reached
  the reducer yet.
\<close>

definition subscribedSent :: "machineEvent client" where
  "subscribedSent = run failingOptions (useRemoteMachine failingOptions) [Observe, Send Reset]"

text \<open>
  A store client whose reducer throws, after it accepted the broadcast
  \<open>{ snapshot: {}, serverSeq: 1 }\<close> and a consumer subscribed to \<open>state\<close>: the queue is
  empty, so the callback has not reached the reducer yet.
\<close>

definition confirmedSubscribed :: "machineEvent client" where
  "confirmedSubscribed =
     run failingOptions (useRemoteMachine failingOptions)
       [Deliver (broadcast (JObject []) None 1), Observe]"

text \<open>The runes client after the same send.\<close>

definition sentRunes :: "machineEvent runesClient" where
  "sentRunes = sendRunes svelteRunes (useRemoteMachineRunes svelteRunes failingOptions) Reset"

definition sentThreeRunes :: "machineEvent runesClient" where
  "sentThreeRunes =
     sendRunes svelteRunes
       (sendRunes svelteRunes
          (sendRunes svelteRunes (useRemoteMachineRunes svelteRunes defaultOptions)
             (Click ''button1''))
          (Click ''button2''))
       Reset"

section \<open>The authoritative adapter (\<open>wireAppMachineToBroker\<close>)\<close>

text \<open>
  The closure state of the adapter: the actor's current snapshot, \<open>serverSeqCounter\<close>,
  \<open>lastClientSeq\<close>, and the payloads it handed to \<open>broker.publish(snapshotTopic, _)\<close>,
  oldest first.
\<close>

record adapter =
  actorSnapshot :: jsval
  serverSeqCounter :: int
  lastClientSeq :: "int option"
  published :: "remoteSnapshot list"

definition publishSnapshot :: "adapter \<Rightarrow> jsval \<Rightarrow> int option \<Rightarrow> adapter" where
  "publishSnapshot a snap echo =
     (let n = serverSeqCounter a + 1;
          a1 = a\<lparr>serverSeqCounter := n\<rparr>
      in a1\<lparr>published := published a1 @
                 [\<lparr> snapshot = snap, serverSeq = n, echoClientSeq = echo \<rparr>]\<rparr>)"

text \<open>
  The actor behind \<open>actor.send\<close> and \<open>actor.getSnapshot\<close> is the state machine
  library's, which is not among the source files; it is the parameter \<open>transition\<close>.
  \<open>transition s ev = Inr s'\<close>: the machine takes the event and the actor's snapshot
  becomes \<open>s'\<close>.  \<open>transition s ev = Inl (x, s')\<close>: the machine's transition throws \<open>x\<close>;
  the actor catches it inside \<open>send\<close> and reports it to its error listeners, \<open>send\<close>
  returns, and \<open>getSnapshot\<close> then answers \<open>s'\<close>.
\<close>

definition actorSend ::
  "(jsval \<Rightarrow> 'e \<Rightarrow> (exn \<times> jsval) + jsval) \<Rightarrow> adapter \<Rightarrow> 'e \<Rightarrow> adapter" where
  "actorSend transition a ev =
     (case transition (actorSnapshot a) ev of
        Inl (x, s') \<Rightarrow> a\<lparr>actorSnapshot := s'\<rparr>
      | Inr s \<Rightarrow> a\<lparr>actorSnapshot := s\<rparr>)"

text \<open>
  The handler subscribed to the events topic: it assigns \<open>lastClientSeq\<close>, sends the
  event to the actor and publishes the actor's snapshot with the echo.  It has no
  \<open>throw\<close> and no \<open>try\<close> of its own, and \<open>actor.send\<close> returns in either case, so no
  exception leaves it.
\<close>

definition onEvent ::
  "(jsval \<Rightarrow> 'e \<Rightarrow> (exn \<times> jsval) + jsval) \<Rightarrow> adapter \<Rightarrow> 'e trackedEvent \<Rightarrow>
     exn option \<times> adapter" where
  "onEvent transition a d =
     (let a1 = a\<lparr>lastClientSeq := Some (clientSeq d)\<rparr>;
          a2 = actorSend transition a1 (event d)
      in (None, publishSnapshot a2 (actorSnapshot a2) (Some (clientSeq d))))"

text \<open>The handler subscribed to the snapshot-request topic.\<close>

definition onRequest :: "adapter \<Rightarrow> adapter" where
  "onRequest a = publishSnapshot a (actorSnapshot a) (lastClientSeq a)"

text \<open>
  \<open>wireAppMachineToBroker\<close>, given the snapshot of the started actor: the counters are
  initialised and the initial snapshot is published without an echo.
\<close>

definition wireAppMachineToBroker :: "jsval \<Rightarrow> adapter" where
  "wireAppMachineToBroker initial =
     publishSnapshot
       \<lparr> actorSnapshot = initial, serverSeqCounter = 0, lastClientSeq = None, published = [] \<rparr>
       initial None"

datatype 'e adapterInput =
    Event "'e trackedEvent"
  | SnapshotRequest

fun adapterStep ::
  "(jsval \<Rightarrow> 'e \<Rightarrow> (exn \<times> jsval) + jsval) \<Rightarrow> adapter \<Rightarrow> 'e adapterInput \<Rightarrow> adapter" where
  "adapterStep transition a (Event d) = snd (onEvent transition a d)"
| "adapterStep transition a SnapshotRequest = onRequest a"

definition adapterRun ::
  "(jsval \<Rightarrow> 'e \<Rightarrow> (exn \<times> jsval) + jsval) \<Rightarrow> adapter \<Rightarrow> 'e adapterInput list \<Rightarrow> adapter" where
  "adapterRun transition a ins = foldl (adapterStep transition) a ins"

text \<open>A transition that throws on every event and leaves the snapshot as it was.\<close>

definition rejecting :: "exn \<Rightarrow> jsval \<Rightarrow> 'e \<Rightarrow> (exn \<times> jsval) + jsval" where
  "rejecting x s ev = Inl (x, s)"

section \<open>The relay (\<open>PubSubBroker\<close>)\<close>

text \<open>
  A handler is a JavaScript function: it has an identity (a \<open>Set\<close> holds it once) and a
  behaviour.  Handlers and webview panels are named by numbers; the behaviour of the
  handlers is a parameter \<open>beh\<close> of the operations, \<open>beh h d = Some x\<close> meaning that
  handler \<open>h\<close> throws \<open>x\<close> when called with \<open>d\<close>.  Handlers are opaque: what a handler
  does to the broker while it runs is not part of this model.
\<close>

type_synonym handler = nat
type_synonym panel = nat
type_synonym behaviour = "handler \<Rightarrow> jsval \<Rightarrow> exn option"

text \<open>What the relay does to the outside, in order.\<close>

datatype effect =
    Invoke handler jsval
  | PostMessage panel string jsval
  | ConsoleError exn

text \<open>
  \<open>Set\<close> and \<open>Map\<close> keep insertion order: a set is a list without repetition, a map an
  association list (\<open>Map.set\<close> is \<open>AList.update\<close>, \<open>Map.get\<close> is \<open>map_of\<close>,
  \<open>Map.delete\<close> is \<open>AList.delete\<close>).
\<close>

definition setAdd :: "'a \<Rightarrow> 'a list \<Rightarrow> 'a list" where
  "setAdd x xs = (if List.member xs x then xs else xs @ [x])"

definition setDelete :: "'a \<Rightarrow> 'a list \<Rightarrow> 'a list" where
  "setDelete x xs = removeAll x xs"

record broker =
  webviews :: "panel list"
  retainedSnapshots :: "(string \<times> jsval) list"
  topicHandlers :: "(string \<times> handler list) list"
  effects :: "effect list"

definition createBroker :: broker where
  "createBroker = \<lparr> webviews = [], retainedSnapshots = [], topicHandlers = [], effects = [] \<rparr>"

text \<open>
  \<open>handlers.forEach(handler => handler(data))\<close>: the handlers are called in insertion
  order; the first exception ends the loop and leaves \<open>forEach\<close>.
\<close>

fun forEachHandler :: "behaviour \<Rightarrow> handler list \<Rightarrow> jsval \<Rightarrow> effect list \<Rightarrow> exn option \<times> effect list" where
  "forEachHandler beh [] d log = (None, log)"
| "forEachHandler beh (h # hs) d log =
     (case beh h d of
        Some x \<Rightarrow> (Some x, log @ [Invoke h d])
      | None \<Rightarrow> forEachHandler beh hs d (log @ [Invoke h d]))"

definition publish :: "behaviour \<Rightarrow> broker \<Rightarrow> string \<Rightarrow> jsval \<Rightarrow> exn option \<times> broker" where
  "publish beh b topic d =
     (let b1 = (if sublist '':snapshot'' topic
                then b\<lparr>retainedSnapshots := AList.update topic d (retainedSnapshots b)\<rparr>
                else b);
          (thrown, log) = (case map_of (topicHandlers b1) topic of
                             None \<Rightarrow> (None, effects b1)
                           | Some hs \<Rightarrow> forEachHandler beh hs d (effects b1))
      in case thrown of
           Some x \<Rightarrow> (Some x, b1\<lparr>effects := log\<rparr>)
         | None \<Rightarrow>
             (None, b1\<lparr>effects := log @ map (\<lambda>p. PostMessage p topic d) (webviews b1)\<rparr>))"

definition subscribe :: "behaviour \<Rightarrow> broker \<Rightarrow> string \<Rightarrow> handler \<Rightarrow> exn option \<times> broker" where
  "subscribe beh b topic h =
     (let hs = (case map_of (topicHandlers b) topic of None \<Rightarrow> [] | Some hs \<Rightarrow> hs);
          b1 = b\<lparr>topicHandlers := AList.update topic (setAdd h hs) (topicHandlers b)\<rparr>
      in case map_of (retainedSnapshots b1) topic of
           None \<Rightarrow> (None, b1)
         | Some retained \<Rightarrow>
             if truthy retained
             then (beh h retained, b1\<lparr>effects := effects b1 @ [Invoke h retained]\<rparr>)
             else (None, b1))"

text \<open>The function returned by \<open>subscribe(topic, handler)\<close>.\<close>

definition unsubscribe :: "broker \<Rightarrow> string \<Rightarrow> handler \<Rightarrow> broker" where
  "unsubscribe b topic h =
     (case map_of (topicHandlers b) topic of
        None \<Rightarrow> b
      | Some hs \<Rightarrow>
          let hs' = setDelete h hs
          in if length hs' = 0
             then b\<lparr>topicHandlers := AList.delete topic (topicHandlers b)\<rparr>
             else b\<lparr>topicHandlers := AList.update topic hs' (topicHandlers b)\<rparr>)"

definition attachWebviewPanel :: "broker \<Rightarrow> panel \<Rightarrow> broker" where
  "attachWebviewPanel b p =
     (let b1 = b\<lparr>webviews := setAdd p (webviews b)\<rparr>
      in b1\<lparr>effects := effects b1 @
                 map (\<lambda>(topic, snap). PostMessage p topic snap) (retainedSnapshots b1)\<rparr>)"

text \<open>The cleanup function returned by \<open>attachWebviewPanel\<close>.\<close>

definition detachWebviewPanel :: "broker \<Rightarrow> panel \<Rightarrow> broker" where
  "detachWebviewPanel b p = b\<lparr>webviews := setDelete p (webviews b)\<rparr>"

definition getRetainedSnapshot :: "broker \<Rightarrow> string \<Rightarrow> jsval option" where
  "getRetainedSnapshot b topic = map_of (retainedSnapshots b) topic"

definition clearRetainedSnapshot :: "broker \<Rightarrow> string \<Rightarrow> broker" where
  "clearRetainedSnapshot b topic =
     b\<lparr>retainedSnapshots := AList.delete topic (retainedSnapshots b)\<rparr>"

text \<open>
  A history of calls on one broker.  A call that throws hands the exception to its
  caller; the broker stays as the call left it and serves the next call.
\<close>

datatype brokerOp =
    Publish string jsval
  | Subscribe string handler
  | Unsubscribe string handler
  | AttachWebviewPanel panel
  | DetachWebviewPanel panel
  | ClearRetainedSnapshot string

fun brokerStep :: "behaviour \<Rightarrow> broker \<Rightarrow> brokerOp \<Rightarrow> broker" where
  "brokerStep beh b (Publish topic d) = snd (publish beh b topic d)"
| "brokerStep beh b (Subscribe topic h) = snd (subscribe beh b topic h)"
| "brokerStep beh b (Unsubscribe topic h) = unsubscribe b topic h"
| "brokerStep beh b (AttachWebviewPanel p) = attachWebviewPanel b p"
| "brokerStep beh b (DetachWebviewPanel p) = detachWebviewPanel b p"
| "brokerStep beh b (ClearRetainedSnapshot topic) = clearRetainedSnapshot b topic"

definition brokerRun :: "behaviour \<Rightarrow> broker \<Rightarrow> brokerOp list \<Rightarrow> broker" where
  "brokerRun beh b ops = foldl (brokerStep beh) b ops"

text \<open>
  The payload most recently published on \<open>topic\<close> in a history that started with
  \<open>r\<close> retained, if any was and \<open>clearRetainedSnapshot(topic)\<close> did not follow it.
\<close>

fun lastPublished :: "string \<Rightarrow> jsval option \<Rightarrow> brokerOp list \<Rightarrow> jsval option" where
  "lastPublished topic r [] = r"
| "lastPublished topic r (Publish t d # ops) =
     lastPublished topic (if t = topic then Some d else r) ops"
| "lastPublished topic r (ClearRetainedSnapshot t # ops) =
     lastPublished topic (if t = topic then None else r) ops"
| "lastPublished topic r (_ # ops) = lastPublished topic r ops"

text \<open>Handlers for the samples: none throws; handler \<open>1\<close> throws on every payload.\<close>

definition quiet :: behaviour where
  "quiet h d = None"

definition firstThrows :: behaviour where
  "firstThrows h d = (if h = 1 then Some (Exn ''handler failed'') else None)"

text \<open>
  A broker with panel \<open>7\<close> attached and handlers \<open>1\<close> and \<open>2\<close> subscribed, in this order, to
  the events topic of machine \<open>app\<close>.
\<close>

definition twoHandlerBroker :: broker where
  "twoHandlerBroker =
     snd (subscribe firstThrows
            (snd (subscribe firstThrows (attachWebviewPanel createBroker 7)
                    ''machine:app:events'' 1))
            ''machine:app:events'' 2)"

text \<open>A fresh broker after \<open>publish('machine:app:snapshot', 0)\<close>.\<close>

definition zeroRetained :: broker where
  "zeroRetained = snd (publish quiet createBroker ''machine:app:snapshot'' (JNumber 0))"

section \<open>The webview side (\<open>WebviewPubSubAdapter\<close>)\<close>

datatype messageType = PublishMessage | SubscribeMessage

text \<open>\<open>interface PubSubMessage\<close>; its field \<open>type\<close> is \<open>messageType\<close> here.\<close>

record pubSubMessage =
  messageType :: messageType
  topic :: string
  data :: jsval

record webviewPubSubAdapter =
  subscriptions :: "(string \<times> handler list) list"
  useFallback :: bool
  adapterEffects :: "effect list"

text \<open>
  The loop of the message listener: each handler is called inside its own
  \<open>try { ... } catch (e) { console.error(...) }\<close>.
\<close>

fun forEachIsolated :: "behaviour \<Rightarrow> handler list \<Rightarrow> jsval \<Rightarrow> effect list \<Rightarrow> effect list" where
  "forEachIsolated beh [] d log = log"
| "forEachIsolated beh (h # hs) d log =
     (case beh h d of
        Some x \<Rightarrow> forEachIsolated beh hs d (log @ [Invoke h d, ConsoleError x])
      | None \<Rightarrow> forEachIsolated beh hs d (log @ [Invoke h d]))"

text \<open>
  The listener installed by \<open>setupMessageListener\<close>, on a message event whose data is
  an object of shape \<open>PubSubMessage\<close>.
\<close>

definition onMessage :: "behaviour \<Rightarrow> webviewPubSubAdapter \<Rightarrow> pubSubMessage \<Rightarrow> webviewPubSubAdapter" where
  "onMessage beh w message =
     (if messageType message = PublishMessage then
        (case map_of (subscriptions w) (topic message) of
           None \<Rightarrow> w
         | Some hs \<Rightarrow>
             w\<lparr>adapterEffects := forEachIsolated beh hs (data message) (adapterEffects w)\<rparr>)
      else w)"

definition adapterSubscribe :: "webviewPubSubAdapter \<Rightarrow> string \<Rightarrow> handler \<Rightarrow> webviewPubSubAdapter" where
  "adapterSubscribe w t h =
     (let hs = (case map_of (subscriptions w) t of None \<Rightarrow> [] | Some hs \<Rightarrow> hs)
      in w\<lparr>subscriptions := AList.update t (setAdd h hs) (subscriptions w)\<rparr>)"

text \<open>The envelope \<open>{ event: { type: 'reset' }, clientSeq: 1 }\<close> as a payload.\<close>

definition resetEnvelope :: jsval where
  "resetEnvelope =
     JObject [(''event'', JObject [(''type'', JString ''reset'')]), (''clientSeq'', JNumber 1)]"

text \<open>A webview adapter with the same two handlers on that topic.\<close>

definition twoHandlerAdapter :: webviewPubSubAdapter where
  "twoHandlerAdapter =
     adapterSubscribe
       (adapterSubscribe \<lparr> subscriptions = [], useFallback = False, adapterEffects = [] \<rparr>
          ''machine:app:events'' 1)
       ''machine:app:events'' 2"

section \<open>The client discards stale broadcasts\<close>

subsection \<open>Store writes\<close>

lemma sync_frame:
  assumes "sync opts c = (t, c')"
  shows "baseState c' = baseState c" and "lastServerSeq c' = lastServerSeq c"
    and "pendingEvents c' = pendingEvents c" and "connected c' = connected c"
    and "calls c' = calls c" and "clientSeqCounter c' = clientSeqCounter c"
    and "listening c' = listening c"
  using assms by (auto simp: sync_def split: if_splits sum.splits)

lemma sync_quiet: "\<not> listening c \<or> stuck c \<Longrightarrow> sync opts c = (None, c)"
  by (auto simp: sync_def)

lemma sync_returns:
  "listening c \<Longrightarrow> \<not> stuck c \<Longrightarrow> state opts c = Inr v \<Longrightarrow> sync opts c = (None, c\<lparr>stateValue := v\<rparr>)"
  by (simp add: sync_def)

lemma sync_throws:
  "listening c \<Longrightarrow> \<not> stuck c \<Longrightarrow> state opts c = Inl x \<Longrightarrow> sync opts c = (Some x, c\<lparr>stuck := True\<rparr>)"
  by (simp add: sync_def)

lemma setBaseState_frame:
  assumes "setBaseState opts c v = (t, c')"
  shows "baseState c' = v" and "lastServerSeq c' = lastServerSeq c"
    and "pendingEvents c' = pendingEvents c" and "connected c' = connected c"
    and "calls c' = calls c" and "clientSeqCounter c' = clientSeqCounter c"
    and "listening c' = listening c"
proof -
  show "baseState c' = v"
  proof (cases "safeNotEqual (baseState c) v")
    case True
    then show ?thesis using assms sync_frame(1)[of opts "c\<lparr>baseState := v\<rparr>" t c']
      by (simp add: setBaseState_def)
  next
    case False
    then have "baseState c = v" by (simp add: safeNotEqual_def split: jsval.splits)
    then show ?thesis using assms False by (simp add: setBaseState_def)
  qed
  show "lastServerSeq c' = lastServerSeq c" "pendingEvents c' = pendingEvents c"
    "connected c' = connected c" "calls c' = calls c"
    "clientSeqCounter c' = clientSeqCounter c" "listening c' = listening c"
    using assms sync_frame[of opts "c\<lparr>baseState := v\<rparr>" t c']
    by (simp_all add: setBaseState_def split: if_splits)
qed

lemma updatePendingEvents_frame:
  assumes "updatePendingEvents opts c f = (t, c')"
  shows "pendingEvents c' = f (pendingEvents c)" and "baseState c' = baseState c"
    and "lastServerSeq c' = lastServerSeq c" and "connected c' = connected c"
    and "calls c' = calls c" and "clientSeqCounter c' = clientSeqCounter c"
    and "listening c' = listening c"
  using assms sync_frame[of opts "c\<lparr>pendingEvents := f (pendingEvents c)\<rparr>" t c']
  by (simp_all add: updatePendingEvents_def)

lemma updateConnected_frame:
  "connected (updateConnected opts c)"
  "baseState (updateConnected opts c) = baseState c"
  "lastServerSeq (updateConnected opts c) = lastServerSeq c"
  "pendingEvents (updateConnected opts c) = pendingEvents c"
  "clientSeqCounter (updateConnected opts c) = clientSeqCounter c"
  "listening (updateConnected opts c) = listening c"
  by (simp_all add: updateConnected_def)

lemma andThen_simps:
  "andThen (Some x, c) f = (Some x, c)"
  "andThen (None, c) f = f c"
  by (simp_all add: andThen_def)

subsection \<open>Discarding and accepting\<close>

lemma handleSnapshot_stale:
  "serverSeq rs \<le> lastServerSeq c \<Longrightarrow> handleSnapshot opts c rs = (None, c)"
  by (simp add: handleSnapshot_def)

text \<open>
  A broadcast with a newer version: the version and the confirmed state are written
  whether the handler returns or not; when it returns, the queue is filtered and the
  client is connected.
\<close>

lemma handleSnapshot_fresh_frame:
  assumes "\<not> serverSeq rs \<le> lastServerSeq c"
  shows "lastServerSeq (snd (handleSnapshot opts c rs)) = serverSeq rs"
    and "baseState (snd (handleSnapshot opts c rs)) = snapshot rs"
    and "clientSeqCounter (snd (handleSnapshot opts c rs)) = clientSeqCounter c"
    and "listening (snd (handleSnapshot opts c rs)) = listening c"
    and "fst (handleSnapshot opts c rs) = None \<Longrightarrow>
         pendingEvents (snd (handleSnapshot opts c rs)) =
           (case echoClientSeq rs of
              None \<Rightarrow> pendingEvents c
            | Some n \<Rightarrow> filter (\<lambda>e. n < clientSeq e) (pendingEvents c))"
    and "fst (handleSnapshot opts c rs) = None \<Longrightarrow> connected (snd (handleSnapshot opts c rs))"
proof -
  let ?c1 = "c\<lparr>lastServerSeq := serverSeq rs\<rparr>"
  obtain t2 c2 where r2: "setBaseState opts ?c1 (snapshot rs) = (t2, c2)"
    by (cases "setBaseState opts ?c1 (snapshot rs)")
  note f2 = setBaseState_frame[OF r2]
  let ?ack = "case echoClientSeq rs of
                None \<Rightarrow> (None, c2)
              | Some echo \<Rightarrow> updatePendingEvents opts c2 (filter (\<lambda>e. clientSeq e > echo))"
  obtain t3 c3 where r3: "?ack = (t3, c3)" by (cases ?ack)
  have c3_cases:
    "(echoClientSeq rs = None \<and> c3 = c2) \<or>
     (\<exists>n. echoClientSeq rs = Some n \<and>
          updatePendingEvents opts c2 (filter (\<lambda>e. clientSeq e > n)) = (t3, c3))"
    using r3 by (cases "echoClientSeq rs") auto
  have f3: "baseState c3 = snapshot rs \<and> lastServerSeq c3 = serverSeq rs \<and>
    clientSeqCounter c3 = clientSeqCounter c \<and> listening c3 = listening c \<and>
    pendingEvents c3 =
       (case echoClientSeq rs of
          None \<Rightarrow> pendingEvents c
        | Some n \<Rightarrow> filter (\<lambda>e. n < clientSeq e) (pendingEvents c))"
    using c3_cases
  proof (elim disjE exE conjE)
    assume "echoClientSeq rs = None" "c3 = c2"
    then show ?thesis using f2 by simp
  next
    fix n
    assume e: "echoClientSeq rs = Some n"
      and u: "updatePendingEvents opts c2 (filter (\<lambda>e. clientSeq e > n)) = (t3, c3)"
    show ?thesis using updatePendingEvents_frame[OF u] f2 e by simp
  qed
  have h: "handleSnapshot opts c rs =
             (case t2 of
                Some x \<Rightarrow> (Some x, c2)
              | None \<Rightarrow> (case t3 of Some x \<Rightarrow> (Some x, c3)
                         | None \<Rightarrow> (None, updateConnected opts c3)))"
    using assms by (cases t2; cases t3) (simp_all add: handleSnapshot_def r2 andThen_simps r3)
  show "lastServerSeq (snd (handleSnapshot opts c rs)) = serverSeq rs"
    using f2 f3 by (cases t2; cases t3) (simp_all add: h updateConnected_frame)
  show "baseState (snd (handleSnapshot opts c rs)) = snapshot rs"
    using f2 f3 by (cases t2; cases t3) (simp_all add: h updateConnected_frame)
  show "clientSeqCounter (snd (handleSnapshot opts c rs)) = clientSeqCounter c"
    using f2 f3 by (cases t2; cases t3) (simp_all add: h updateConnected_frame)
  show "listening (snd (handleSnapshot opts c rs)) = listening c"
    using f2 f3 by (cases t2; cases t3) (simp_all add: h updateConnected_frame)
  show "pendingEvents (snd (handleSnapshot opts c rs)) =
           (case echoClientSeq rs of
              None \<Rightarrow> pendingEvents c
            | Some n \<Rightarrow> filter (\<lambda>e. n < clientSeq e) (pendingEvents c))"
    if "fst (handleSnapshot opts c rs) = None"
    using that f3 by (cases t2; cases t3) (simp_all add: h updateConnected_frame)
  show "connected (snd (handleSnapshot opts c rs))"
    if "fst (handleSnapshot opts c rs) = None"
    using that by (cases t2; cases t3) (simp_all add: h updateConnected_frame)
qed

lemmas handleSnapshot_fresh_seq = handleSnapshot_fresh_frame(1)
lemmas handleSnapshot_fresh_base = handleSnapshot_fresh_frame(2)

text \<open>While \<open>state\<close> is not listening, or the queue is stuck, the handler returns.\<close>

lemma handleSnapshot_quiet:
  assumes "\<not> listening c \<or> stuck c"
  shows "fst (handleSnapshot opts c rs) = None"
proof (cases "serverSeq rs \<le> lastServerSeq c")
  case True
  then show ?thesis by (simp add: handleSnapshot_stale)
next
  case False
  have q: "\<And>d. listening d = listening c \<Longrightarrow> stuck d = stuck c \<Longrightarrow> sync opts d = (None, d)"
    using assms by (auto simp: sync_def)
  have s: "setBaseState opts (c\<lparr>lastServerSeq := serverSeq rs\<rparr>) (snapshot rs) =
             (None, c\<lparr>lastServerSeq := serverSeq rs, baseState := snapshot rs\<rparr>)"
  proof (cases "safeNotEqual (baseState c) (snapshot rs)")
    case True
    then show ?thesis by (simp add: setBaseState_def q)
  next
    case False
    then have "baseState c = snapshot rs" by (simp add: safeNotEqual_def split: jsval.splits)
    then show ?thesis using False by (simp add: setBaseState_def)
  qed
  show ?thesis
    using False
    by (cases "echoClientSeq rs")
      (simp_all add: handleSnapshot_def s andThen_simps updatePendingEvents_def q)
qed

lemma handleSnapshot_changed_iff:
  "snd (handleSnapshot opts c rs) \<noteq> c \<longleftrightarrow> \<not> serverSeq rs \<le> lastServerSeq c"
proof (cases "serverSeq rs \<le> lastServerSeq c")
  case True
  then show ?thesis by (simp add: handleSnapshot_stale)
next
  case False
  then have "lastServerSeq (snd (handleSnapshot opts c rs)) \<noteq> lastServerSeq c"
    by (simp add: handleSnapshot_fresh_seq)
  then show ?thesis using False by auto
qed

lemma acceptedVersions_Cons:
  "acceptedVersions opts c (rs # rss) =
     (if serverSeq rs \<le> lastServerSeq c then acceptedVersions opts c rss
      else serverSeq rs # acceptedVersions opts (snd (handleSnapshot opts c rs)) rss)"
  using handleSnapshot_changed_iff[of opts c rs] handleSnapshot_stale[of rs c opts]
  by (auto simp: Let_def)

lemma acceptedVersions_increasing:
  "sorted_wrt (<) (acceptedVersions opts c rss) \<and>
   (\<forall>v \<in> set (acceptedVersions opts c rss). lastServerSeq c < v)"
proof (induction rss arbitrary: c)
  case Nil
  show ?case by simp
next
  case (Cons rs rss)
  show ?case
  proof (cases "serverSeq rs \<le> lastServerSeq c")
    case True
    then show ?thesis
      using Cons.IH[of c] by (simp add: acceptedVersions_Cons del: acceptedVersions.simps)
  next
    case False
    then show ?thesis
      using Cons.IH[of "snd (handleSnapshot opts c rs)"]
      by (auto simp: acceptedVersions_Cons handleSnapshot_fresh_seq simp del: acceptedVersions.simps)
  qed
qed

lemma serverSeq_broadcast: "serverSeq (broadcast s a v) = v"
  by (simp add: broadcast_def)

lemma lastServerSeq_useRemoteMachine: "lastServerSeq (useRemoteMachine opts) = - 1"
  by (simp add: useRemoteMachine_def)

lemma acceptedVersions_example:
  "acceptedVersions opts (useRemoteMachine opts) (map (broadcast s a) [1, 3, 2, 5]) = [1, 3, 5]"
  by (simp add: acceptedVersions_Cons handleSnapshot_fresh_seq serverSeq_broadcast
      lastServerSeq_useRemoteMachine del: acceptedVersions.simps(2))

text \<open>The same for the runes client.\<close>

lemma handleSnapshotRunes_stale:
  "serverSeq rs \<le> runesLastServerSeq c \<Longrightarrow> handleSnapshotRunes runes opts c rs = c"
  by (simp add: handleSnapshotRunes_def)

lemma handleSnapshotRunes_fresh_seq:
  "\<not> serverSeq rs \<le> runesLastServerSeq c \<Longrightarrow>
   runesLastServerSeq (handleSnapshotRunes runes opts c rs) = serverSeq rs"
  by (simp add: handleSnapshotRunes_def Let_def split: option.splits)

lemma handleSnapshotRunes_fresh_base:
  "\<not> serverSeq rs \<le> runesLastServerSeq c \<Longrightarrow>
   baseStateRune (handleSnapshotRunes runes opts c rs) = snapshot rs"
  by (simp add: handleSnapshotRunes_def Let_def split: option.splits)

lemma handleSnapshotRunes_fresh_pending:
  "\<not> serverSeq rs \<le> runesLastServerSeq c \<Longrightarrow>
   pendingEventsRune (handleSnapshotRunes runes opts c rs) =
     (case echoClientSeq rs of
        None \<Rightarrow> pendingEventsRune c
      | Some n \<Rightarrow> filter (\<lambda>e. n < clientSeq e) (pendingEventsRune c))"
  by (simp add: handleSnapshotRunes_def Let_def split: option.splits)

lemma handleSnapshotRunes_changed_iff:
  "handleSnapshotRunes runes opts c rs \<noteq> c \<longleftrightarrow> \<not> serverSeq rs \<le> runesLastServerSeq c"
proof (cases "serverSeq rs \<le> runesLastServerSeq c")
  case True
  then show ?thesis by (simp add: handleSnapshotRunes_stale)
next
  case False
  then have "runesLastServerSeq (handleSnapshotRunes runes opts c rs) \<noteq> runesLastServerSeq c"
    by (simp add: handleSnapshotRunes_fresh_seq)
  then show ?thesis using False by auto
qed

lemma acceptedVersionsRunes_Cons:
  "acceptedVersionsRunes runes opts c (rs # rss) =
     (if serverSeq rs \<le> runesLastServerSeq c then acceptedVersionsRunes runes opts c rss
      else serverSeq rs # acceptedVersionsRunes runes opts (handleSnapshotRunes runes opts c rs) rss)"
  using handleSnapshotRunes_changed_iff[of runes opts c rs] handleSnapshotRunes_stale[of rs c runes opts]
  by (auto simp: Let_def)

lemma acceptedVersionsRunes_increasing:
  "sorted_wrt (<) (acceptedVersionsRunes runes opts c rss) \<and>
   (\<forall>v \<in> set (acceptedVersionsRunes runes opts c rss). runesLastServerSeq c < v)"
proof (induction rss arbitrary: c)
  case Nil
  show ?case by simp
next
  case (Cons rs rss)
  show ?case
  proof (cases "serverSeq rs \<le> runesLastServerSeq c")
    case True
    then show ?thesis
      using Cons.IH[of c] by (simp add: acceptedVersionsRunes_Cons del: acceptedVersionsRunes.simps)
  next
    case False
    then show ?thesis
      using Cons.IH[of "handleSnapshotRunes runes opts c rs"]
      by (auto simp: acceptedVersionsRunes_Cons handleSnapshotRunes_fresh_seq
          simp del: acceptedVersionsRunes.simps)
  qed
qed

lemma runesLastServerSeq_useRemoteMachineRunes:
  "runesLastServerSeq (useRemoteMachineRunes runes opts) = - 1"
  by (simp add: useRemoteMachineRunes_def)

lemma acceptedVersionsRunes_example:
  "acceptedVersionsRunes runes opts (useRemoteMachineRunes runes opts)
     (map (broadcast s a) [1, 3, 2, 5]) = [1, 3, 5]"
  by (simp add: acceptedVersionsRunes_Cons handleSnapshotRunes_fresh_seq serverSeq_broadcast
      runesLastServerSeq_useRemoteMachineRunes del: acceptedVersionsRunes.simps(2))

text \<open>
  Claim C1.  A broadcast whose version is at most the highest version the client has
  seen leaves the whole client as it was: confirmed state, pending queue, connected
  flag, highest version seen; no collaborator is called and nothing is thrown.  Hence
  the versions a client accepts from any sequence of broadcasts are strictly increasing,
  and a fresh client fed the versions 1, 3, 2, 5 accepts 1, 3, 5.  Both clients behave
  so.
\<close>

theorem C1_stale_broadcast_discarded:
  "(serverSeq rs \<le> lastServerSeq c \<longrightarrow> handleSnapshot opts c rs = (None, c)) \<and>
   (serverSeq rs \<le> runesLastServerSeq rc \<longrightarrow> handleSnapshotRunes runes opts rc rs = rc) \<and>
   sorted_wrt (<) (acceptedVersions opts c rss) \<and>
   sorted_wrt (<) (acceptedVersionsRunes runes opts rc rss) \<and>
   acceptedVersions opts (useRemoteMachine opts) (map (broadcast s a) [1, 3, 2, 5]) = [1, 3, 5] \<and>
   acceptedVersionsRunes runes opts (useRemoteMachineRunes runes opts)
     (map (broadcast s a) [1, 3, 2, 5]) = [1, 3, 5]"
proof (intro conjI impI)
  show "sorted_wrt (<) (acceptedVersions opts c rss)"
    using acceptedVersions_increasing[of opts c rss] by blast
  show "sorted_wrt (<) (acceptedVersionsRunes runes opts rc rss)"
    using acceptedVersionsRunes_increasing[of runes opts rc rss] by blast
qed (fact handleSnapshot_stale handleSnapshotRunes_stale acceptedVersions_example
    acceptedVersionsRunes_example)+

theorem C1_witness:
  "serverSeq (broadcast JNull None 2)
     \<le> lastServerSeq (snd (handleSnapshot defaultOptions (useRemoteMachine defaultOptions)
          (broadcast (JNumber 7) None 3)) :: machineEvent client) \<and>
   handleSnapshot defaultOptions
     (snd (handleSnapshot defaultOptions (useRemoteMachine defaultOptions)
        (broadcast (JNumber 7) None 3)) :: machineEvent client)
     (broadcast JNull None 2)
   = (None, snd (handleSnapshot defaultOptions (useRemoteMachine defaultOptions)
        (broadcast (JNumber 7) None 3))) \<and>
   serverSeq (broadcast JNull None 2)
     \<le> runesLastServerSeq (handleSnapshotRunes svelteRunes defaultOptions
          (useRemoteMachineRunes svelteRunes defaultOptions)
          (broadcast (JNumber 7) None 3) :: machineEvent runesClient) \<and>
   handleSnapshotRunes svelteRunes defaultOptions
     (handleSnapshotRunes svelteRunes defaultOptions
        (useRemoteMachineRunes svelteRunes defaultOptions)
        (broadcast (JNumber 7) None 3) :: machineEvent runesClient)
     (broadcast JNull None 2)
   = handleSnapshotRunes svelteRunes defaultOptions
       (useRemoteMachineRunes svelteRunes defaultOptions)
       (broadcast (JNumber 7) None 3)"
proof -
  let ?c = "snd (handleSnapshot defaultOptions (useRemoteMachine defaultOptions)
              (broadcast (JNumber 7) None 3)) :: machineEvent client"
  let ?rc = "handleSnapshotRunes svelteRunes defaultOptions
               (useRemoteMachineRunes svelteRunes defaultOptions)
               (broadcast (JNumber 7) None 3) :: machineEvent runesClient"
  have a: "serverSeq (broadcast JNull None 2) \<le> lastServerSeq ?c"
    by (simp add: handleSnapshot_fresh_seq serverSeq_broadcast lastServerSeq_useRemoteMachine)
  have b: "serverSeq (broadcast JNull None 2) \<le> runesLastServerSeq ?rc"
    by (simp add: handleSnapshotRunes_fresh_seq serverSeq_broadcast
        runesLastServerSeq_useRemoteMachineRunes)
  show ?thesis
    using a b
      C1_stale_broadcast_discarded[of "broadcast JNull None 2" ?c defaultOptions ?rc
        svelteRunes "[]" JNull None]
    by blast
qed

section \<open>Cumulative acknowledgment\<close>

lemma send_fields:
  "pendingEvents (snd (send opts c ev)) =
     pendingEvents c @ [\<lparr>event = ev, clientSeq = clientSeqCounter c + 1\<rparr>]"
  "clientSeqCounter (snd (send opts c ev)) = clientSeqCounter c + 1"
  "lastServerSeq (snd (send opts c ev)) = lastServerSeq c"
  "baseState (snd (send opts c ev)) = baseState c"
  "connected (snd (send opts c ev)) = connected c"
  "listening (snd (send opts c ev)) = listening c"
proof -
  let ?c1 = "c\<lparr>clientSeqCounter := clientSeqCounter c + 1\<rparr>"
  let ?f = "\<lambda>pending. pending @ [\<lparr>event = ev, clientSeq = clientSeqCounter c + 1\<rparr>]"
  obtain t c2 where u: "updatePendingEvents opts ?c1 ?f = (t, c2)"
    by (cases "updatePendingEvents opts ?c1 ?f")
  note f = updatePendingEvents_frame[OF u]
  have s: "send opts c ev =
             (case t of Some x \<Rightarrow> (Some x, c2)
              | None \<Rightarrow> (None, c2\<lparr>calls := calls c2 @ [PublishEvent ev (clientSeqCounter c + 1)]\<rparr>))"
    by (cases t) (simp_all add: send_def Let_def u andThen_simps)
  show "pendingEvents (snd (send opts c ev)) =
     pendingEvents c @ [\<lparr>event = ev, clientSeq = clientSeqCounter c + 1\<rparr>]"
    using f by (cases t) (simp_all add: s)
  show "clientSeqCounter (snd (send opts c ev)) = clientSeqCounter c + 1"
    using f by (cases t) (simp_all add: s)
  show "lastServerSeq (snd (send opts c ev)) = lastServerSeq c"
    using f by (cases t) (simp_all add: s)
  show "baseState (snd (send opts c ev)) = baseState c"
    using f by (cases t) (simp_all add: s)
  show "connected (snd (send opts c ev)) = connected c"
    using f by (cases t) (simp_all add: s)
  show "listening (snd (send opts c ev)) = listening c"
    using f by (cases t) (simp_all add: s)
qed

text \<open>While \<open>state\<close> is not listening, or the queue is stuck, \<open>send\<close> returns and publishes.\<close>

lemma send_quiet:
  assumes "\<not> listening c \<or> stuck c"
  shows "send opts c ev =
           (None, c\<lparr>clientSeqCounter := clientSeqCounter c + 1,
                    pendingEvents := pendingEvents c @
                      [\<lparr>event = ev, clientSeq = clientSeqCounter c + 1\<rparr>],
                    calls := calls c @ [PublishEvent ev (clientSeqCounter c + 1)]\<rparr>)"
  using assms by (auto simp: send_def Let_def updatePendingEvents_def sync_def andThen_simps)

lemma sendRunes_fields:
  "pendingEventsRune (sendRunes runes c ev) =
     pendingEventsRune c @ [\<lparr>event = ev, clientSeq = runesClientSeqCounter c + 1\<rparr>]"
  "runesClientSeqCounter (sendRunes runes c ev) = runesClientSeqCounter c + 1"
  "runesLastServerSeq (sendRunes runes c ev) = runesLastServerSeq c"
  "baseStateRune (sendRunes runes c ev) = baseStateRune c"
  "connectedRune (sendRunes runes c ev) = connectedRune c"
  by (simp_all add: sendRunes_def Let_def)

lemma useRemoteMachine_fields:
  "pendingEvents (useRemoteMachine opts) = []"
  "clientSeqCounter (useRemoteMachine opts) = 0"
  "baseState (useRemoteMachine opts) = nullish (initialSnapshot opts) JNull"
  "connected (useRemoteMachine opts) = False"
  "listening (useRemoteMachine opts) = False"
  "stuck (useRemoteMachine opts) = False"
  by (simp_all add: useRemoteMachine_def)

lemma useRemoteMachineRunes_fields:
  "pendingEventsRune (useRemoteMachineRunes runes opts) = []"
  "runesClientSeqCounter (useRemoteMachineRunes runes opts) = 0"
  "baseStateRune (useRemoteMachineRunes runes opts) = nullish (initialSnapshot opts) JNull"
  "connectedRune (useRemoteMachineRunes runes opts) = False"
  by (simp_all add: useRemoteMachineRunes_def)

lemma three_sends:
  "pendingEvents (run opts (useRemoteMachine opts) [Send a1, Send a2, Send a3]) =
     [\<lparr>event = a1, clientSeq = 1\<rparr>, \<lparr>event = a2, clientSeq = 2\<rparr>, \<lparr>event = a3, clientSeq = 3\<rparr>]"
  by (simp add: run_def send_fields useRemoteMachine_fields)

lemma three_sendRunes:
  "pendingEventsRune
     (sendRunes runes (sendRunes runes (sendRunes runes (useRemoteMachineRunes runes opts) a1) a2) a3) =
     [\<lparr>event = a1, clientSeq = 1\<rparr>, \<lparr>event = a2, clientSeq = 2\<rparr>, \<lparr>event = a3, clientSeq = 3\<rparr>]"
  by (simp add: sendRunes_fields useRemoteMachineRunes_fields)

text \<open>
  In a queue whose identifiers increase, as \<open>send\<close> builds it, the entries an
  acknowledgment retires are a prefix: an entry goes only with all entries before it.
\<close>

lemma filter_above_dropWhile:
  "sorted_wrt (<) (map f xs) \<Longrightarrow>
   filter (\<lambda>e. (n::int) < f e) xs = dropWhile (\<lambda>e. f e \<le> n) xs"
proof (induction xs)
  case Nil
  show ?case by simp
next
  case (Cons x xs)
  show ?case
  proof (cases "f x \<le> n")
    case True
    then show ?thesis using Cons by simp
  next
    case False
    then have "\<forall>y \<in> set xs. n < f y" using Cons.prems by auto
    then have "filter (\<lambda>e. n < f e) xs = xs" by (simp add: filter_id_conv)
    then show ?thesis using False by simp
  qed
qed

text \<open>
  What holds of both clients: an accepted broadcast with acknowledgment \<open>n\<close> whose
  handler returns keeps exactly the entries with an id above \<open>n\<close>, in their order; in a
  queue of increasing ids these are what is left after a prefix.  The handler of the
  runes client always returns.
\<close>

lemma acknowledgment_retires:
  "(\<not> serverSeq rs \<le> lastServerSeq c \<and> echoClientSeq rs = Some n \<and>
    fst (handleSnapshot opts c rs) = None \<longrightarrow>
      pendingEvents (snd (handleSnapshot opts c rs)) =
        filter (\<lambda>e. n < clientSeq e) (pendingEvents c)) \<and>
   (\<not> serverSeq rs \<le> runesLastServerSeq rc \<and> echoClientSeq rs = Some n \<longrightarrow>
      pendingEventsRune (handleSnapshotRunes runes opts rc rs) =
        filter (\<lambda>e. n < clientSeq e) (pendingEventsRune rc)) \<and>
   (sorted_wrt (<) (map clientSeq q) \<longrightarrow>
      filter (\<lambda>e. n < clientSeq e) q = dropWhile (\<lambda>e. clientSeq e \<le> n) q)"
  by (simp add: handleSnapshot_fresh_frame(5) handleSnapshotRunes_fresh_pending
      filter_above_dropWhile)

subsection \<open>The store client whose reducer throws\<close>

lemma failingOptions_fields:
  "optimistic failingOptions = Some (throwingReducer (Exn ''prediction failed''))"
  "initialSnapshot failingOptions = JUndefined"
  by (simp_all add: failingOptions_def defaultOptions_def)

lemma subscribedSent_eq:
  "subscribedSent =
     \<lparr> baseState = JNull, connected = False,
       pendingEvents = [\<lparr>event = Reset, clientSeq = 1\<rparr>],
       clientSeqCounter = 1, lastServerSeq = - 1,
       calls = [PublishEvent Reset 1],
       listening = True, stateValue = JNull, stuck = False \<rparr>"
  by (simp add: subscribedSent_def run_def subscribeState_def send_def Let_def
      updatePendingEvents_def sync_def andThen_def state_def useRemoteMachine_def
      failingOptions_fields nullish_def)

lemma subscribedSent_aborts:
  "handleSnapshot failingOptions subscribedSent (broadcast (JObject []) (Some 1) 1) =
     (Some (Exn ''prediction failed''),
      subscribedSent\<lparr>lastServerSeq := 1, baseState := JObject [], stuck := True\<rparr>)"
  by (simp add: subscribedSent_eq handleSnapshot_def broadcast_def setBaseState_def
      safeNotEqual_def sync_def state_def failingOptions_fields throwingReducer_def
      andThen_def)

lemma sentRunes_fields:
  "pendingEventsRune sentRunes = [\<lparr>event = Reset, clientSeq = 1\<rparr>]"
  "runesLastServerSeq sentRunes = - 1"
  by (simp_all add: sentRunes_def sendRunes_fields useRemoteMachineRunes_fields
      runesLastServerSeq_useRemoteMachineRunes)

text \<open>
  Claim C2.  The store client does not keep it when the optimistic reducer throws.  A
  consumer has subscribed to \<open>state\<close>, the action with id 1 was sent, and the broadcast
  \<open>{ snapshot: {}, serverSeq: 1, echoClientSeq: 1 }\<close> arrives: \<open>baseState.set\<close> re-runs the
  derived callback, the reducer throws, and the exception leaves \<open>handleSnapshot\<close> after
  the version and the confirmed state were written.  The entry with id 1 stays pending
  and the client stays disconnected, while the version is recorded, so that a repeated
  delivery would be discarded.  The runes client, given the same send and broadcast,
  retires the entry.
\<close>

theorem C2_store_handler_leaves_acknowledged_entry:
  "pendingEvents subscribedSent = [\<lparr>event = Reset, clientSeq = 1\<rparr>] \<and>
   handleSnapshot failingOptions subscribedSent (broadcast (JObject []) (Some 1) 1) =
     (Some (Exn ''prediction failed''),
      subscribedSent\<lparr>lastServerSeq := 1, baseState := JObject [], stuck := True\<rparr>) \<and>
   pendingEvents (snd (handleSnapshot failingOptions subscribedSent
                         (broadcast (JObject []) (Some 1) 1))) =
     [\<lparr>event = Reset, clientSeq = 1\<rparr>] \<and>
   connected (snd (handleSnapshot failingOptions subscribedSent
                     (broadcast (JObject []) (Some 1) 1))) = False \<and>
   pendingEventsRune sentRunes = [\<lparr>event = Reset, clientSeq = 1\<rparr>] \<and>
   pendingEventsRune (handleSnapshotRunes svelteRunes failingOptions sentRunes
                        (broadcast (JObject []) (Some 1) 1)) = []"
proof -
  have r: "pendingEventsRune (handleSnapshotRunes svelteRunes failingOptions sentRunes
                        (broadcast (JObject []) (Some 1) 1)) = []"
    by (simp add: handleSnapshotRunes_fresh_pending serverSeq_broadcast sentRunes_fields
        broadcast_def)
  show ?thesis
    by (simp add: subscribedSent_aborts r sentRunes_fields) (simp add: subscribedSent_eq)
qed

section \<open>The visible state\<close>

lemma reduce_total:
  "reduce (\<lambda>acc e. neverThrows f acc (g e)) s q = Inr (foldl f s (map g q))"
  by (induction q arbitrary: s) (simp_all add: neverThrows_def)

lemma reduce_append:
  "reduce f s (xs @ ys) = (case reduce f s xs of Inl x \<Rightarrow> Inl x | Inr s' \<Rightarrow> reduce f s' ys)"
  by (induction xs arbitrary: s) (simp_all split: sum.splits)

lemma reduce_throws:
  "reduce f s pre = Inr s' \<Longrightarrow> f s' x = Inl err \<Longrightarrow> reduce f s (pre @ x # post) = Inl err"
  by (simp add: reduce_append)

lemma state_falsy: "\<not> truthy (baseState c) \<Longrightarrow> state opts c = Inr JNull"
  by (simp add: state_def)

lemma state_truthy:
  "truthy (baseState c) \<Longrightarrow>
   state opts c =
     (case optimistic opts of
        None \<Rightarrow> Inr (baseState c)
      | Some reducer \<Rightarrow> reduce (\<lambda>acc e. reducer acc (event e)) (baseState c) (pendingEvents c))"
  by (cases "pendingEvents c") (simp_all add: state_def split: option.splits)

lemma stateRune_falsy:
  "derived runes \<Longrightarrow> \<not> truthy (baseStateRune c) \<Longrightarrow> stateRune runes opts c = Inr JNull"
  by (simp add: stateRune_def)

lemma stateRune_truthy:
  "derived runes \<Longrightarrow> truthy (baseStateRune c) \<Longrightarrow>
   stateRune runes opts c =
     (case optimistic opts of
        None \<Rightarrow> Inr (baseStateRune c)
      | Some reducer \<Rightarrow>
          reduce (\<lambda>acc e. reducer acc (event e)) (baseStateRune c) (pendingEventsRune c))"
  by (cases "pendingEventsRune c") (simp_all add: stateRune_def split: option.splits)

lemma stateRune_no_derived: "\<not> derived runes \<Longrightarrow> stateRune runes opts c = Inr (baseStateRune c)"
  by (simp add: stateRune_def)

lemma state_fold:
  assumes "truthy (baseState c)" and "optimistic opts = map_option neverThrows p"
  shows "state opts c = Inr (visibleSpec p (baseState c) (map event (pendingEvents c)))"
  using assms by (cases p) (simp_all add: state_truthy visibleSpec_def reduce_total)

lemma stateRune_fold:
  assumes "derived runes" and "truthy (baseStateRune c)" and "optimistic opts = map_option neverThrows p"
  shows "stateRune runes opts c = Inr (visibleSpec p (baseStateRune c) (map event (pendingEventsRune c)))"
  using assms by (cases p) (simp_all add: stateRune_truthy visibleSpec_def reduce_total)

lemma state_null: "baseState c = JNull \<Longrightarrow> state opts c = Inr JNull"
  by (simp add: state_def)

lemma stateRune_null:
  "derived runes \<Longrightarrow> baseStateRune c = JNull \<Longrightarrow> stateRune runes opts c = Inr JNull"
  by (simp add: stateRune_def)

text \<open>
  Claim C3, as amended.  For every truthy confirmed state and every pending queue, the
  visible state is the prediction function folded left over the queue in issuance
  order, \<open>p (p S a1) a2\<close> for the queue \<open>[a1, a2]\<close>, and the confirmed state itself when
  no prediction function is configured.  While the confirmed state is \<open>null\<close>, as it is
  before the first broadcast of a client created without an initial snapshot, the
  visible state is \<open>null\<close>, whatever the queue and the prediction function are.  The
  runes client does this when it was given \<open>derived\<close>.
\<close>

theorem C3_visible_state_is_fold:
  "(truthy (baseState c) \<and> optimistic opts = map_option neverThrows p \<longrightarrow>
      state opts c = Inr (visibleSpec p (baseState c) (map event (pendingEvents c)))) \<and>
   (truthy (baseState c) \<and> optimistic opts = Some (neverThrows f) \<and>
    map event (pendingEvents c) = [a1, a2] \<longrightarrow>
      state opts c = Inr (f (f (baseState c) a1) a2)) \<and>
   (truthy (baseState c) \<and> optimistic opts = None \<longrightarrow> state opts c = Inr (baseState c)) \<and>
   (baseState c = JNull \<longrightarrow> state opts c = Inr JNull) \<and>
   (derived runes \<and> truthy (baseStateRune rc) \<and> optimistic opts = map_option neverThrows p \<longrightarrow>
      stateRune runes opts rc =
        Inr (visibleSpec p (baseStateRune rc) (map event (pendingEventsRune rc)))) \<and>
   (derived runes \<and> truthy (baseStateRune rc) \<and> optimistic opts = Some (neverThrows f) \<and>
    map event (pendingEventsRune rc) = [a1, a2] \<longrightarrow>
      stateRune runes opts rc = Inr (f (f (baseStateRune rc) a1) a2)) \<and>
   (derived runes \<and> truthy (baseStateRune rc) \<and> optimistic opts = None \<longrightarrow>
      stateRune runes opts rc = Inr (baseStateRune rc)) \<and>
   (derived runes \<and> baseStateRune rc = JNull \<longrightarrow> stateRune runes opts rc = Inr JNull)"
proof -
  have fold: "truthy (baseState c) \<and> optimistic opts = map_option neverThrows p \<longrightarrow>
      state opts c = Inr (visibleSpec p (baseState c) (map event (pendingEvents c)))"
    by (simp add: state_fold)
  have two: "truthy (baseState c) \<and> optimistic opts = Some (neverThrows f) \<and>
      map event (pendingEvents c) = [a1, a2] \<longrightarrow>
      state opts c = Inr (f (f (baseState c) a1) a2)"
    using state_fold[of c opts "Some f"] by (simp add: visibleSpec_def)
  have none: "truthy (baseState c) \<and> optimistic opts = None \<longrightarrow> state opts c = Inr (baseState c)"
    by (simp add: state_truthy)
  have null: "baseState c = JNull \<longrightarrow> state opts c = Inr JNull"
    by (simp add: state_null)
  have foldr: "derived runes \<and> truthy (baseStateRune rc) \<and>
      optimistic opts = map_option neverThrows p \<longrightarrow>
      stateRune runes opts rc =
        Inr (visibleSpec p (baseStateRune rc) (map event (pendingEventsRune rc)))"
    by (simp add: stateRune_fold)
  have twor: "derived runes \<and> truthy (baseStateRune rc) \<and>
      optimistic opts = Some (neverThrows f) \<and> map event (pendingEventsRune rc) = [a1, a2] \<longrightarrow>
      stateRune runes opts rc = Inr (f (f (baseStateRune rc) a1) a2)"
    using stateRune_fold[of runes rc opts "Some f"] by (simp add: visibleSpec_def)
  have noner: "derived runes \<and> truthy (baseStateRune rc) \<and> optimistic opts = None \<longrightarrow>
      stateRune runes opts rc = Inr (baseStateRune rc)"
    by (simp add: stateRune_truthy)
  have nullr: "derived runes \<and> baseStateRune rc = JNull \<longrightarrow> stateRune runes opts rc = Inr JNull"
    by (simp add: stateRune_null)
  from fold two none null foldr twor noner nullr show ?thesis
    by (intro conjI)
qed

lemma sampleClient_fields:
  "baseState (sampleClient opts) = JObject []"
  "pendingEvents (sampleClient opts) =
     [\<lparr>event = Click ''button1'', clientSeq = 1\<rparr>, \<lparr>event = Reset, clientSeq = 2\<rparr>]"
proof -
  let ?c = "snd (handleSnapshot opts (useRemoteMachine opts) (broadcast (JObject []) None 1))"
  have q: "fst (handleSnapshot opts (useRemoteMachine opts) (broadcast (JObject []) None 1)) = None"
    by (rule handleSnapshot_quiet) (simp add: useRemoteMachine_fields)
  have fresh: "\<not> serverSeq (broadcast (JObject []) None 1) \<le> lastServerSeq (useRemoteMachine opts)"
    by (simp add: serverSeq_broadcast lastServerSeq_useRemoteMachine)
  have b: "baseState ?c = JObject []"
    using handleSnapshot_fresh_frame(2)[OF fresh, of opts] by (simp add: broadcast_def)
  have p: "pendingEvents ?c = []"
    using handleSnapshot_fresh_frame(5)[OF fresh q]
    by (simp add: broadcast_def useRemoteMachine_fields)
  have n: "clientSeqCounter ?c = 0"
    using handleSnapshot_fresh_frame(3)[OF fresh, of opts] by (simp add: useRemoteMachine_fields)
  show "baseState (sampleClient opts) = JObject []"
    by (simp add: sampleClient_def run_def send_fields b)
  show "pendingEvents (sampleClient opts) =
     [\<lparr>event = Click ''button1'', clientSeq = 1\<rparr>, \<lparr>event = Reset, clientSeq = 2\<rparr>]"
    by (simp add: sampleClient_def run_def send_fields p n)
qed

lemma sampleRunesClient_fields:
  "baseStateRune (sampleRunesClient runes opts) = JObject []"
  "pendingEventsRune (sampleRunesClient runes opts) =
     [\<lparr>event = Click ''button1'', clientSeq = 1\<rparr>, \<lparr>event = Reset, clientSeq = 2\<rparr>]"
  by (simp_all add: sampleRunesClient_def sendRunes_fields useRemoteMachineRunes_fields
      handleSnapshotRunes_fresh_base handleSnapshotRunes_fresh_pending serverSeq_broadcast
      runesLastServerSeq_useRemoteMachineRunes handleSnapshotRunes_def broadcast_def Let_def)

theorem C3_witness:
  "truthy (baseState (sampleClient predictingOptions)) \<and>
   optimistic predictingOptions = Some (neverThrows (constReducer (JString ''predicted''))) \<and>
   map event (pendingEvents (sampleClient predictingOptions)) = [Click ''button1'', Reset] \<and>
   state predictingOptions (sampleClient predictingOptions) =
     Inr (constReducer (JString ''predicted'')
            (constReducer (JString ''predicted'') (JObject []) (Click ''button1'')) Reset) \<and>
   derived svelteRunes \<and>
   truthy (baseStateRune (sampleRunesClient svelteRunes predictingOptions)) \<and>
   stateRune svelteRunes predictingOptions (sampleRunesClient svelteRunes predictingOptions) =
     Inr (constReducer (JString ''predicted'')
            (constReducer (JString ''predicted'') (JObject []) (Click ''button1'')) Reset)"
proof -
  have o: "optimistic predictingOptions = Some (neverThrows (constReducer (JString ''predicted'')))"
    by (simp add: predictingOptions_def defaultOptions_def)
  have d: "derived svelteRunes" by (simp add: svelteRunes_def)
  show ?thesis
    using o d
      C3_visible_state_is_fold[where c = "sampleClient predictingOptions"
        and opts = predictingOptions and f = "constReducer (JString ''predicted'')"
        and ?a1.0 = "Click ''button1''" and ?a2.0 = Reset and runes = svelteRunes
        and rc = "sampleRunesClient svelteRunes predictingOptions"]
    by (simp add: sampleClient_fields sampleRunesClient_fields)
qed

theorem C3_counterexample:
  "state predictingOptions (snd (send predictingOptions (useRemoteMachine predictingOptions) Reset))
     \<noteq> Inr (visibleSpec (Some (constReducer (JString ''predicted'')))
              (baseState (snd (send predictingOptions (useRemoteMachine predictingOptions) Reset)))
              (map event
                 (pendingEvents
                    (snd (send predictingOptions (useRemoteMachine predictingOptions) Reset))))) \<and>
   stateRune svelteRunes predictingOptions
       (sendRunes svelteRunes (useRemoteMachineRunes svelteRunes predictingOptions) Reset)
     \<noteq> Inr (visibleSpec (Some (constReducer (JString ''predicted'')))
              (baseStateRune
                 (sendRunes svelteRunes (useRemoteMachineRunes svelteRunes predictingOptions) Reset))
              (map event
                 (pendingEventsRune
                    (sendRunes svelteRunes
                       (useRemoteMachineRunes svelteRunes predictingOptions) Reset))))"
proof -
  have i: "initialSnapshot predictingOptions = JUndefined"
    by (simp add: predictingOptions_def defaultOptions_def)
  show ?thesis
    by (simp add: state_def stateRune_def send_fields sendRunes_fields useRemoteMachine_fields
        useRemoteMachineRunes_fields i nullish_def visibleSpec_def constReducer_def
        svelteRunes_def)
qed

section \<open>A prediction function that throws\<close>

lemma state_throws:
  assumes "truthy (baseState c)" and "optimistic opts = Some r"
    and "pendingEvents c = pre @ x # post"
    and "reduce (\<lambda>acc e. r acc (event e)) (baseState c) pre = Inr s"
    and "r s (event x) = Inl err"
  shows "state opts c = Inl err"
proof -
  have "reduce (\<lambda>acc e. r acc (event e)) (baseState c) (pendingEvents c) = Inl err"
    using assms(3-5) by (simp add: reduce_throws)
  then show ?thesis using assms(1,2) by (simp add: state_truthy)
qed

lemma stateRune_throws:
  assumes "derived runes" and "truthy (baseStateRune c)" and "optimistic opts = Some r"
    and "pendingEventsRune c = pre @ x # post"
    and "reduce (\<lambda>acc e. r acc (event e)) (baseStateRune c) pre = Inr s"
    and "r s (event x) = Inl err"
  shows "stateRune runes opts c = Inl err"
proof -
  have "reduce (\<lambda>acc e. r acc (event e)) (baseStateRune c) (pendingEventsRune c) = Inl err"
    using assms(4-6) by (simp add: reduce_throws)
  then show ?thesis using assms(1-3) by (simp add: stateRune_truthy)
qed

lemma state_depends:
  "baseState c = baseState d \<Longrightarrow> pendingEvents c = pendingEvents d \<Longrightarrow> state opts c = state opts d"
  by (simp add: state_def split: option.splits)

text \<open>The three places of the store client where the callback runs.\<close>

lemma subscribeState_throws:
  "\<not> listening c \<Longrightarrow> state opts c = Inl err \<Longrightarrow>
   subscribeState opts c = (Inl err, c\<lparr>listening := True\<rparr>)"
  by (simp add: subscribeState_def)

lemma send_throws:
  assumes "listening c" and "\<not> stuck c"
    and "state opts
           (c\<lparr>pendingEvents := pendingEvents c @
                 [\<lparr>event = ev, clientSeq = clientSeqCounter c + 1\<rparr>]\<rparr>) = Inl err"
  shows "fst (send opts c ev) = Some err"
proof -
  let ?c2 = "c\<lparr>clientSeqCounter := clientSeqCounter c + 1,
               pendingEvents := pendingEvents c @
                 [\<lparr>event = ev, clientSeq = clientSeqCounter c + 1\<rparr>]\<rparr>"
  have "state opts ?c2 = Inl err"
    using assms(3)
      state_depends[of ?c2 "c\<lparr>pendingEvents := pendingEvents c @
                 [\<lparr>event = ev, clientSeq = clientSeqCounter c + 1\<rparr>]\<rparr>" opts]
    by simp
  then have "sync opts ?c2 = (Some err, ?c2\<lparr>stuck := True\<rparr>)"
    using assms(1,2) by (simp add: sync_throws)
  then show ?thesis
    by (simp add: send_def Let_def updatePendingEvents_def andThen_simps)
qed

lemma handleSnapshot_throws:
  assumes "\<not> serverSeq rs \<le> lastServerSeq c" and "listening c" and "\<not> stuck c"
    and "safeNotEqual (baseState c) (snapshot rs)"
    and "state opts (c\<lparr>baseState := snapshot rs\<rparr>) = Inl err"
  shows "fst (handleSnapshot opts c rs) = Some err"
proof -
  let ?c2 = "c\<lparr>lastServerSeq := serverSeq rs, baseState := snapshot rs\<rparr>"
  have "state opts ?c2 = Inl err"
    using assms(5) state_depends[of ?c2 "c\<lparr>baseState := snapshot rs\<rparr>" opts] by simp
  then have "sync opts ?c2 = (Some err, ?c2\<lparr>stuck := True\<rparr>)"
    using assms(2,3) by (simp add: sync_throws)
  then show ?thesis
    using assms(1,4) by (simp add: handleSnapshot_def setBaseState_def andThen_simps)
qed

text \<open>
  Claim C7, as amended.  When the confirmed state is truthy and the prediction function
  throws at some entry of the pending queue, having returned for the entries before
  it, the recomputation of the visible state ends with that exception and nothing falls
  back to the confirmed state.  The exception leaves the call that made the callback
  run: a read of \<open>state.current\<close> in the runes client; in the store client the first
  subscription to \<open>state\<close>, or the \<open>send\<close> or the broadcast handler whose store write
  re-ran the subscribed callback.  The recomputation itself writes neither the confirmed
  state nor the pending queue.
\<close>

theorem C7_prediction_failure_propagates:
  "(truthy (baseState c) \<and> optimistic opts = Some r \<and> pendingEvents c = pre @ x # post \<and>
    reduce (\<lambda>acc e. r acc (event e)) (baseState c) pre = Inr s \<and> r s (event x) = Inl err \<longrightarrow>
      state opts c = Inl err \<and>
      (\<not> listening c \<longrightarrow> subscribeState opts c = (Inl err, c\<lparr>listening := True\<rparr>)) \<and>
      (listening c \<and> \<not> stuck c \<longrightarrow> sync opts c = (Some err, c\<lparr>stuck := True\<rparr>))) \<and>
   (derived runes \<and> truthy (baseStateRune rc) \<and> optimistic opts = Some r \<and>
    pendingEventsRune rc = pre @ x # post \<and>
    reduce (\<lambda>acc e. r acc (event e)) (baseStateRune rc) pre = Inr s' \<and> r s' (event x) = Inl err \<longrightarrow>
      stateRune runes opts rc = Inl err) \<and>
   (listening c1 \<and> \<not> stuck c1 \<and>
    state opts (c1\<lparr>pendingEvents := pendingEvents c1 @
                     [\<lparr>event = ev, clientSeq = clientSeqCounter c1 + 1\<rparr>]\<rparr>) = Inl err \<longrightarrow>
      fst (send opts c1 ev) = Some err) \<and>
   (\<not> serverSeq rs \<le> lastServerSeq c2 \<and> listening c2 \<and> \<not> stuck c2 \<and>
    safeNotEqual (baseState c2) (snapshot rs) \<and>
    state opts (c2\<lparr>baseState := snapshot rs\<rparr>) = Inl err \<longrightarrow>
      fst (handleSnapshot opts c2 rs) = Some err)"
proof -
  have a: "truthy (baseState c) \<and> optimistic opts = Some r \<and> pendingEvents c = pre @ x # post \<and>
    reduce (\<lambda>acc e. r acc (event e)) (baseState c) pre = Inr s \<and> r s (event x) = Inl err \<longrightarrow>
      state opts c = Inl err \<and>
      (\<not> listening c \<longrightarrow> subscribeState opts c = (Inl err, c\<lparr>listening := True\<rparr>)) \<and>
      (listening c \<and> \<not> stuck c \<longrightarrow> sync opts c = (Some err, c\<lparr>stuck := True\<rparr>))"
    using state_throws[of c opts r pre x post s err]
    by (auto simp: subscribeState_throws sync_throws)
  have b: "derived runes \<and> truthy (baseStateRune rc) \<and> optimistic opts = Some r \<and>
    pendingEventsRune rc = pre @ x # post \<and>
    reduce (\<lambda>acc e. r acc (event e)) (baseStateRune rc) pre = Inr s' \<and> r s' (event x) = Inl err \<longrightarrow>
      stateRune runes opts rc = Inl err"
    using stateRune_throws[of runes rc opts r pre x post s' err] by blast
  have d: "listening c1 \<and> \<not> stuck c1 \<and>
    state opts (c1\<lparr>pendingEvents := pendingEvents c1 @
                     [\<lparr>event = ev, clientSeq = clientSeqCounter c1 + 1\<rparr>]\<rparr>) = Inl err \<longrightarrow>
      fst (send opts c1 ev) = Some err"
    using send_throws[of c1 opts ev err] by blast
  have e: "\<not> serverSeq rs \<le> lastServerSeq c2 \<and> listening c2 \<and> \<not> stuck c2 \<and>
    safeNotEqual (baseState c2) (snapshot rs) \<and>
    state opts (c2\<lparr>baseState := snapshot rs\<rparr>) = Inl err \<longrightarrow>
      fst (handleSnapshot opts c2 rs) = Some err"
    using handleSnapshot_throws[of rs c2 opts err] by blast
  from a b d e show ?thesis by (intro conjI)
qed

lemma sampleClient_failing_eq:
  "sampleClient failingOptions =
     \<lparr> baseState = JObject [], connected = True,
       pendingEvents = [\<lparr>event = Click ''button1'', clientSeq = 1\<rparr>, \<lparr>event = Reset, clientSeq = 2\<rparr>],
       clientSeqCounter = 2, lastServerSeq = 1,
       calls = [PublishEvent (Click ''button1'') 1, PublishEvent Reset 2],
       listening = False, stateValue = JUndefined, stuck = False \<rparr>"
  by (simp add: sampleClient_def run_def handleSnapshot_def broadcast_def setBaseState_def
      safeNotEqual_def send_def Let_def updatePendingEvents_def updateConnected_def sync_def
      andThen_def useRemoteMachine_def failingOptions_def defaultOptions_def nullish_def)

lemma confirmedSubscribed_eq:
  "confirmedSubscribed =
     \<lparr> baseState = JObject [], connected = True, pendingEvents = [],
       clientSeqCounter = 0, lastServerSeq = 1, calls = [],
       listening = True, stateValue = JObject [], stuck = False \<rparr>"
  by (simp add: confirmedSubscribed_def run_def handleSnapshot_def broadcast_def
      setBaseState_def safeNotEqual_def subscribeState_def state_def updateConnected_def
      sync_def andThen_def useRemoteMachine_def failingOptions_def defaultOptions_def
      nullish_def)

lemma throwingReducer_throws: "throwingReducer x s ev = Inl x"
  by (simp add: throwingReducer_def)

theorem C7_witness:
  "truthy (baseState (sampleClient failingOptions)) \<and>
   optimistic failingOptions = Some (throwingReducer (Exn ''prediction failed'')) \<and>
   pendingEvents (sampleClient failingOptions) =
     [] @ \<lparr>event = Click ''button1'', clientSeq = 1\<rparr> # [\<lparr>event = Reset, clientSeq = 2\<rparr>] \<and>
   \<not> listening (sampleClient failingOptions) \<and>
   state failingOptions (sampleClient failingOptions) = Inl (Exn ''prediction failed'') \<and>
   subscribeState failingOptions (sampleClient failingOptions) =
     (Inl (Exn ''prediction failed''), (sampleClient failingOptions)\<lparr>listening := True\<rparr>) \<and>
   derived svelteRunes \<and>
   stateRune svelteRunes failingOptions (sampleRunesClient svelteRunes failingOptions)
     = Inl (Exn ''prediction failed'') \<and>
   listening confirmedSubscribed \<and> \<not> stuck confirmedSubscribed \<and>
   fst (send failingOptions confirmedSubscribed Reset) = Some (Exn ''prediction failed'') \<and>
   listening subscribedSent \<and> \<not> stuck subscribedSent \<and>
   fst (handleSnapshot failingOptions subscribedSent (broadcast (JObject []) (Some 1) 1))
     = Some (Exn ''prediction failed'')"
proof -
  have d: "derived svelteRunes" by (simp add: svelteRunes_def)
  have s1: "state failingOptions
     (confirmedSubscribed\<lparr>pendingEvents := pendingEvents confirmedSubscribed @
        [\<lparr>event = Reset, clientSeq = clientSeqCounter confirmedSubscribed + 1\<rparr>]\<rparr>)
     = Inl (Exn ''prediction failed'')"
    by (simp add: confirmedSubscribed_eq state_def failingOptions_fields throwingReducer_def)
  have s2: "state failingOptions
     (subscribedSent\<lparr>baseState := snapshot (broadcast (JObject []) (Some 1) 1)\<rparr>)
     = Inl (Exn ''prediction failed'')"
    by (simp add: subscribedSent_eq state_def failingOptions_fields throwingReducer_def
        broadcast_def)
  have n: "safeNotEqual (baseState subscribedSent) (snapshot (broadcast (JObject []) (Some 1) 1))"
    by (simp add: subscribedSent_eq safeNotEqual_def broadcast_def)
  have f: "\<not> serverSeq (broadcast (JObject []) (Some 1) 1) \<le> lastServerSeq subscribedSent"
    by (simp add: subscribedSent_eq broadcast_def)
  have l1: "listening confirmedSubscribed \<and> \<not> stuck confirmedSubscribed"
    by (simp add: confirmedSubscribed_eq)
  have l2: "listening subscribedSent \<and> \<not> stuck subscribedSent"
    by (simp add: subscribedSent_eq)
  have l0: "\<not> listening (sampleClient failingOptions)"
    by (simp add: sampleClient_failing_eq)
  show ?thesis
    using d s1 s2 n f l1 l2 l0 failingOptions_fields(1)
      throwingReducer_throws[of "Exn ''prediction failed''" "JObject []" "Click ''button1''"]
      C7_prediction_failure_propagates[where c = "sampleClient failingOptions"
        and opts = failingOptions and r = "throwingReducer (Exn ''prediction failed'')"
        and pre = "[]" and x = "\<lparr>event = Click ''button1'', clientSeq = 1\<rparr>"
        and post = "[\<lparr>event = Reset, clientSeq = 2\<rparr>]" and s = "JObject []" and s' = "JObject []"
        and err = "Exn ''prediction failed''" and runes = svelteRunes
        and rc = "sampleRunesClient svelteRunes failingOptions"
        and ?c1.0 = confirmedSubscribed and ev = Reset
        and ?c2.0 = subscribedSent and rs = "broadcast (JObject []) (Some 1) 1"]
    by (simp add: sampleClient_fields sampleRunesClient_fields)
qed

theorem C7_counterexample:
  "state failingOptions (sampleClient failingOptions)
     \<noteq> Inr (baseState (sampleClient failingOptions)) \<and>
   fst (subscribeState failingOptions (sampleClient failingOptions))
     = Inl (Exn ''prediction failed'') \<and>
   stateRune svelteRunes failingOptions (sampleRunesClient svelteRunes failingOptions)
     \<noteq> Inr (baseStateRune (sampleRunesClient svelteRunes failingOptions))"
  by (simp add: subscribeState_def sampleClient_failing_eq state_def stateRune_def
      sampleRunesClient_fields failingOptions_fields throwingReducer_def svelteRunes_def)

section \<open>The confirmed state over a run\<close>

lemma requestSnapshot_fields:
  "baseState (requestSnapshot c) = baseState c"
  "lastServerSeq (requestSnapshot c) = lastServerSeq c"
  "pendingEvents (requestSnapshot c) = pendingEvents c"
  by (simp_all add: requestSnapshot_def)

lemma requestSnapshotRunes_fields:
  "baseStateRune (requestSnapshotRunes c) = baseStateRune c"
  "runesLastServerSeq (requestSnapshotRunes c) = runesLastServerSeq c"
  "pendingEventsRune (requestSnapshotRunes c) = pendingEventsRune c"
  by (simp_all add: requestSnapshotRunes_def)

lemma subscribeState_fields:
  "baseState (snd (subscribeState opts c)) = baseState c"
  "lastServerSeq (snd (subscribeState opts c)) = lastServerSeq c"
  "pendingEvents (snd (subscribeState opts c)) = pendingEvents c"
  by (simp_all add: subscribeState_def split: sum.splits)

lemma run_Cons: "run opts c (i # ins) = run opts (step opts c i) ins"
  by (simp add: run_def)

lemma runRunes_Cons:
  "runRunes runes opts c (i # ins) = runRunes runes opts (stepRunes runes opts c i) ins"
  by (simp add: runRunes_def)

lemma baseState_run:
  "baseState (run opts c ins) = confirmedAfter (lastServerSeq c) (baseState c) ins"
proof (induction ins arbitrary: c)
  case Nil
  show ?case by (simp add: run_def)
next
  case (Cons i ins)
  show ?case
  proof (cases i)
    case (Send ev)
    then show ?thesis by (simp add: run_Cons Cons.IH send_fields)
  next
    case (Deliver rs)
    show ?thesis
    proof (cases "serverSeq rs \<le> lastServerSeq c")
      case True
      then show ?thesis using Deliver by (simp add: run_Cons Cons.IH handleSnapshot_stale)
    next
      case False
      then show ?thesis
        using Deliver
        by (simp add: run_Cons Cons.IH handleSnapshot_fresh_seq handleSnapshot_fresh_base)
    qed
  next
    case Request
    then show ?thesis by (simp add: run_Cons Cons.IH requestSnapshot_fields)
  next
    case Observe
    then show ?thesis by (simp add: run_Cons Cons.IH subscribeState_fields)
  qed
qed

lemma baseStateRune_runRunes:
  "baseStateRune (runRunes runes opts c ins) =
     confirmedAfter (runesLastServerSeq c) (baseStateRune c) ins"
proof (induction ins arbitrary: c)
  case Nil
  show ?case by (simp add: runRunes_def)
next
  case (Cons i ins)
  show ?case
  proof (cases i)
    case (Send ev)
    then show ?thesis by (simp add: runRunes_Cons Cons.IH sendRunes_fields)
  next
    case (Deliver rs)
    show ?thesis
    proof (cases "serverSeq rs \<le> runesLastServerSeq c")
      case True
      then show ?thesis
        using Deliver by (simp add: runRunes_Cons Cons.IH handleSnapshotRunes_stale)
    next
      case False
      then show ?thesis
        using Deliver
        by (simp add: runRunes_Cons Cons.IH handleSnapshotRunes_fresh_seq
            handleSnapshotRunes_fresh_base)
    qed
  next
    case Request
    then show ?thesis by (simp add: runRunes_Cons Cons.IH requestSnapshotRunes_fields)
  next
    case Observe
    then show ?thesis by (simp add: runRunes_Cons Cons.IH)
  qed
qed

lemma confirmedAfter_noneAccepted: "noneAccepted v ins \<Longrightarrow> confirmedAfter v s ins = s"
  by (induction v ins rule: noneAccepted.induct) simp_all

text \<open>
  Claim C9.  When the rune utilities have no \<open>derived\<close>, the state exposed by
  \<open>useRemoteMachineRunes\<close> is the base state rune itself: after any sequence of
  sends, broadcasts and snapshot requests, and for every optimistic reducer,
  \<open>state.current\<close> is the snapshot of the last accepted broadcast (the initial base state
  when none was accepted), however long the pending queue is.  The reducer is not
  consulted: not even one that throws changes the value.
\<close>

theorem C9_no_derived_exposes_base_state:
  "\<not> derived runes \<longrightarrow>
     stateRune runes opts rc = Inr (baseStateRune rc) \<and>
     stateRune runes opts (runRunes runes opts rc ins) =
       Inr (confirmedAfter (runesLastServerSeq rc) (baseStateRune rc) ins) \<and>
     stateRune runes (opts\<lparr>optimistic := r\<rparr>) rc = stateRune runes opts rc"
  by (simp add: stateRune_no_derived baseStateRune_runRunes)

theorem C9_witness:
  "\<not> derived stateOnlyRunes \<and>
   pendingEventsRune (sampleRunesClient stateOnlyRunes predictingOptions) =
     [\<lparr>event = Click ''button1'', clientSeq = 1\<rparr>, \<lparr>event = Reset, clientSeq = 2\<rparr>] \<and>
   stateRune stateOnlyRunes predictingOptions (sampleRunesClient stateOnlyRunes predictingOptions)
     = Inr (JObject []) \<and>
   stateRune stateOnlyRunes predictingOptions
     (runRunes stateOnlyRunes predictingOptions
        (useRemoteMachineRunes stateOnlyRunes predictingOptions)
        [Send Reset, Deliver (broadcast (JNumber 4) (Some 1) 1), Send (Click ''button2''),
         Deliver (broadcast (JNumber 3) None 1)])
     = Inr (JNumber 4)"
proof -
  have d: "\<not> derived stateOnlyRunes" by (simp add: stateOnlyRunes_def)
  show ?thesis
    using d
      C9_no_derived_exposes_base_state[where runes = stateOnlyRunes and opts = predictingOptions
        and rc = "sampleRunesClient stateOnlyRunes predictingOptions" and ins = "[]"]
      C9_no_derived_exposes_base_state[where runes = stateOnlyRunes and opts = predictingOptions
        and rc = "useRemoteMachineRunes stateOnlyRunes predictingOptions"
        and ins = "[Send Reset, Deliver (broadcast (JNumber 4) (Some 1) 1),
                    Send (Click ''button2''), Deliver (broadcast (JNumber 3) None 1)]"]
    by (simp add: sampleRunesClient_fields runesLastServerSeq_useRemoteMachineRunes
        broadcast_def)
qed

section \<open>Before the first broadcast\<close>

lemma nullish_undefined: "nullish JUndefined JNull = JNull"
  by (simp add: nullish_def)

lemma state_before_first_broadcast:
  assumes "initialSnapshot opts = JUndefined" and "noneAccepted (- 1) ins"
  shows "state opts (run opts (useRemoteMachine opts) ins) = Inr JNull"
proof -
  have "baseState (run opts (useRemoteMachine opts) ins) = JNull"
    using assms
    by (simp add: baseState_run lastServerSeq_useRemoteMachine confirmedAfter_noneAccepted
        useRemoteMachine_fields nullish_undefined)
  then show ?thesis by (simp add: state_falsy)
qed

lemma stateRune_before_first_broadcast:
  assumes "initialSnapshot opts = JUndefined" and "noneAccepted (- 1) ins"
  shows "stateRune runes opts (runRunes runes opts (useRemoteMachineRunes runes opts) ins) = Inr JNull"
proof -
  have "baseStateRune (runRunes runes opts (useRemoteMachineRunes runes opts) ins) = JNull"
    using assms
    by (simp add: baseStateRune_runRunes runesLastServerSeq_useRemoteMachineRunes
        confirmedAfter_noneAccepted useRemoteMachineRunes_fields nullish_undefined)
  then show ?thesis by (simp add: stateRune_def)
qed

text \<open>
  Claim C10.  A client created without \<open>initialSnapshot\<close> exposes \<open>null\<close> as its state
  after any sequence of sends, snapshot requests and discarded broadcasts, that is until
  the first broadcast is accepted, and whatever optimistic reducer is configured.  In
  general, when the base state is falsy the derived state is \<open>null\<close> and does not depend
  on the reducer or on the pending queue: the reducer is not applied.  Both clients
  behave so; without \<open>derived\<close> the runes client exposes the base state itself.
\<close>

theorem C10_null_until_first_broadcast:
  "(initialSnapshot opts = JUndefined \<and> noneAccepted (- 1) ins \<longrightarrow>
      state opts (run opts (useRemoteMachine opts) ins) = Inr JNull \<and>
      stateRune runes opts (runRunes runes opts (useRemoteMachineRunes runes opts) ins) = Inr JNull) \<and>
   (\<not> truthy (baseState c) \<longrightarrow>
      state opts c = Inr JNull \<and> state (opts\<lparr>optimistic := r\<rparr>) c = Inr JNull) \<and>
   (\<not> truthy (baseStateRune rc) \<longrightarrow>
      stateRune runes opts rc = Inr (if derived runes then JNull else baseStateRune rc) \<and>
      stateRune runes (opts\<lparr>optimistic := r\<rparr>) rc = stateRune runes opts rc)"
proof -
  have a: "initialSnapshot opts = JUndefined \<and> noneAccepted (- 1) ins \<longrightarrow>
      state opts (run opts (useRemoteMachine opts) ins) = Inr JNull \<and>
      stateRune runes opts (runRunes runes opts (useRemoteMachineRunes runes opts) ins) = Inr JNull"
    by (simp add: state_before_first_broadcast stateRune_before_first_broadcast)
  have b: "\<not> truthy (baseState c) \<longrightarrow>
      state opts c = Inr JNull \<and> state (opts\<lparr>optimistic := r\<rparr>) c = Inr JNull"
    by (simp add: state_falsy)
  have c: "\<not> truthy (baseStateRune rc) \<longrightarrow>
      stateRune runes opts rc = Inr (if derived runes then JNull else baseStateRune rc) \<and>
      stateRune runes (opts\<lparr>optimistic := r\<rparr>) rc = stateRune runes opts rc"
    by (simp add: stateRune_def)
  from a b c show ?thesis by (intro conjI)
qed

theorem C10_witness:
  "initialSnapshot failingOptions = JUndefined \<and>
   noneAccepted (- 1)
     [Send (Click ''button1''), Request, Deliver (broadcast (JObject []) None (- 1)), Send Reset] \<and>
   state failingOptions
     (run failingOptions (useRemoteMachine failingOptions)
        [Send (Click ''button1''), Request, Deliver (broadcast (JObject []) None (- 1)), Send Reset])
     = Inr JNull \<and>
   stateRune svelteRunes failingOptions
     (runRunes svelteRunes failingOptions (useRemoteMachineRunes svelteRunes failingOptions)
        [Send (Click ''button1''), Request, Deliver (broadcast (JObject []) None (- 1)), Send Reset])
     = Inr JNull \<and>
   \<not> truthy (baseState (snd (send failingOptions (useRemoteMachine failingOptions) Reset))) \<and>
   state failingOptions (snd (send failingOptions (useRemoteMachine failingOptions) Reset))
     = Inr JNull"
proof -
  have i: "initialSnapshot failingOptions = JUndefined"
    by (simp add: failingOptions_def defaultOptions_def)
  have n: "noneAccepted (- 1)
     [Send (Click ''button1''), Request, Deliver (broadcast (JObject []) None (- 1)), Send Reset]"
    by (simp add: serverSeq_broadcast)
  have f: "\<not> truthy (baseState (snd (send failingOptions (useRemoteMachine failingOptions) Reset)))"
    by (simp add: send_fields useRemoteMachine_fields i nullish_undefined)
  show ?thesis
    using i n f
      C10_null_until_first_broadcast[where opts = failingOptions and runes = svelteRunes
        and ins = "[Send (Click ''button1''), Request,
                    Deliver (broadcast (JObject []) None (- 1)), Send Reset]"
        and c = "snd (send failingOptions (useRemoteMachine failingOptions) Reset)"]
    by blast
qed

section \<open>The adapter's broadcasts\<close>

lemma publishSnapshot_fields:
  "actorSnapshot (publishSnapshot a snap echo) = actorSnapshot a"
  "serverSeqCounter (publishSnapshot a snap echo) = serverSeqCounter a + 1"
  "lastClientSeq (publishSnapshot a snap echo) = lastClientSeq a"
  "published (publishSnapshot a snap echo) =
     published a @ [\<lparr> snapshot = snap, serverSeq = serverSeqCounter a + 1, echoClientSeq = echo \<rparr>]"
  by (simp_all add: publishSnapshot_def Let_def)

lemma onEvent_returns:
  assumes "transition (actorSnapshot a) ev = Inr s"
  shows "onEvent transition a \<lparr>event = ev, clientSeq = i\<rparr> =
           (None, a\<lparr>lastClientSeq := Some i, actorSnapshot := s,
                    serverSeqCounter := serverSeqCounter a + 1,
                    published := published a @
                      [\<lparr> snapshot = s, serverSeq = serverSeqCounter a + 1, echoClientSeq = Some i \<rparr>]\<rparr>)"
  using assms by (simp add: onEvent_def actorSend_def publishSnapshot_def Let_def)

lemma onEvent_failed:
  assumes "transition (actorSnapshot a) ev = Inl (x, s')"
  shows "onEvent transition a \<lparr>event = ev, clientSeq = i\<rparr> =
           (None, a\<lparr>lastClientSeq := Some i, actorSnapshot := s',
                    serverSeqCounter := serverSeqCounter a + 1,
                    published := published a @
                      [\<lparr> snapshot = s', serverSeq = serverSeqCounter a + 1, echoClientSeq = Some i \<rparr>]\<rparr>)"
  using assms by (simp add: onEvent_def actorSend_def publishSnapshot_def Let_def)

text \<open>Either way the handler is one broadcast of the actor's snapshot after the send.\<close>

lemma onEvent_publishes:
  "snd (onEvent transition a d) =
     publishSnapshot (actorSend transition (a\<lparr>lastClientSeq := Some (clientSeq d)\<rparr>) (event d))
       (actorSnapshot (actorSend transition (a\<lparr>lastClientSeq := Some (clientSeq d)\<rparr>) (event d)))
       (Some (clientSeq d))"
  by (simp add: onEvent_def Let_def)

lemma actorSend_fields:
  "serverSeqCounter (actorSend transition a ev) = serverSeqCounter a"
  "published (actorSend transition a ev) = published a"
  "lastClientSeq (actorSend transition a ev) = lastClientSeq a"
  by (simp_all add: actorSend_def split: sum.splits prod.splits)

text \<open>
  The invariant of the adapter: the versions published so far increase strictly and
  none is above the counter.
\<close>

lemma publishSnapshot_invariant:
  assumes "sorted_wrt (<) (map serverSeq (published a))"
    and "\<forall>r \<in> set (published a). serverSeq r \<le> serverSeqCounter a"
  shows "sorted_wrt (<) (map serverSeq (published (publishSnapshot a snap echo))) \<and>
         (\<forall>r \<in> set (published (publishSnapshot a snap echo)).
            serverSeq r \<le> serverSeqCounter (publishSnapshot a snap echo))"
  using assms by (fastforce simp: publishSnapshot_fields sorted_wrt_append)

lemma adapterStep_invariant:
  assumes "sorted_wrt (<) (map serverSeq (published a))"
    and "\<forall>r \<in> set (published a). serverSeq r \<le> serverSeqCounter a"
  shows "sorted_wrt (<) (map serverSeq (published (adapterStep transition a i))) \<and>
         (\<forall>r \<in> set (published (adapterStep transition a i)).
            serverSeq r \<le> serverSeqCounter (adapterStep transition a i))"
proof (cases i)
  case (Event d)
  let ?a2 = "actorSend transition (a\<lparr>lastClientSeq := Some (clientSeq d)\<rparr>) (event d)"
  have "sorted_wrt (<) (map serverSeq (published ?a2))"
    and "\<forall>r \<in> set (published ?a2). serverSeq r \<le> serverSeqCounter ?a2"
    using assms by (simp_all add: actorSend_fields)
  then show ?thesis
    using publishSnapshot_invariant[of ?a2 "actorSnapshot ?a2" "Some (clientSeq d)"] Event
    by (simp add: onEvent_publishes)
next
  case SnapshotRequest
  then show ?thesis
    using publishSnapshot_invariant[OF assms, of "actorSnapshot a" "lastClientSeq a"]
    by (simp add: onRequest_def)
qed

lemma adapterRun_invariant:
  assumes "sorted_wrt (<) (map serverSeq (published a))"
    and "\<forall>r \<in> set (published a). serverSeq r \<le> serverSeqCounter a"
  shows "sorted_wrt (<) (map serverSeq (published (adapterRun transition a ins))) \<and>
         (\<forall>r \<in> set (published (adapterRun transition a ins)).
            serverSeq r \<le> serverSeqCounter (adapterRun transition a ins))"
  using assms
proof (induction ins arbitrary: a)
  case Nil
  then show ?case by (simp add: adapterRun_def)
next
  case (Cons i ins)
  have "adapterRun transition a (i # ins) = adapterRun transition (adapterStep transition a i) ins"
    by (simp add: adapterRun_def)
  then show ?case
    using Cons.IH[of "adapterStep transition a i"] adapterStep_invariant[OF Cons.prems, of transition i]
    by simp
qed

lemma wireAppMachineToBroker_published:
  "published (wireAppMachineToBroker initial) =
     [\<lparr> snapshot = initial, serverSeq = 1, echoClientSeq = None \<rparr>]"
  "serverSeqCounter (wireAppMachineToBroker initial) = 1"
  "actorSnapshot (wireAppMachineToBroker initial) = initial"
  "lastClientSeq (wireAppMachineToBroker initial) = None"
  by (simp_all add: wireAppMachineToBroker_def publishSnapshot_fields)

lemma adapter_versions_increase:
  "sorted_wrt (<) (map serverSeq (published (adapterRun transition (wireAppMachineToBroker initial) ins)))"
  using adapterRun_invariant[of "wireAppMachineToBroker initial" transition ins]
  by (simp add: wireAppMachineToBroker_published)

text \<open>The counter counts the broadcasts: nothing but a broadcast moves it.\<close>

lemma adapter_counter_counts:
  "serverSeqCounter (adapterRun transition (wireAppMachineToBroker initial) ins) =
     int (length (published (adapterRun transition (wireAppMachineToBroker initial) ins)))"
proof -
  have step: "serverSeqCounter (adapterStep transition a i) = int (length (published (adapterStep transition a i)))"
    if "serverSeqCounter a = int (length (published a))" for a i
  proof (cases i)
    case (Event d)
    then show ?thesis
      using that by (simp add: onEvent_publishes publishSnapshot_fields actorSend_fields)
  next
    case SnapshotRequest
    then show ?thesis using that by (simp add: onRequest_def publishSnapshot_fields)
  qed
  have run: "serverSeqCounter (adapterRun transition a ins) = int (length (published (adapterRun transition a ins)))"
    if "serverSeqCounter a = int (length (published a))" for a
    using that
  proof (induction ins arbitrary: a)
    case Nil
    then show ?case by (simp add: adapterRun_def)
  next
    case (Cons i ins)
    show ?case
      using Cons.IH[OF step[OF Cons.prems, of i]] by (simp add: adapterRun_def)
  qed
  show ?thesis by (rule run) (simp add: wireAppMachineToBroker_published)
qed

text \<open>
  Claim C4.  For an inbound envelope \<open>{event, clientSeq = i}\<close> on which the transition
  returns the state \<open>s\<close>, the adapter makes \<open>s\<close> its authoritative state and publishes
  exactly one broadcast, \<open>{snapshot = s, serverSeq = counter + 1, echoClientSeq = i}\<close>,
  leaving the counter at \<open>counter + 1\<close>.  Over any sequence of envelopes and snapshot
  requests after wiring, the versions of all broadcasts (the initial one, the ones
  answering actions and the ones answering snapshot requests) increase strictly, and the
  counter equals the number of broadcasts published: only a broadcast of the adapter
  moves it.
\<close>

theorem C4_adapter_broadcasts:
  "(transition (actorSnapshot a) ev = Inr s \<longrightarrow>
      onEvent transition a \<lparr>event = ev, clientSeq = i\<rparr> =
        (None, a\<lparr>lastClientSeq := Some i, actorSnapshot := s,
                 serverSeqCounter := serverSeqCounter a + 1,
                 published := published a @
                   [\<lparr> snapshot = s, serverSeq = serverSeqCounter a + 1, echoClientSeq = Some i \<rparr>]\<rparr>)) \<and>
   sorted_wrt (<)
     (map serverSeq (published (adapterRun transition (wireAppMachineToBroker initial) ins))) \<and>
   serverSeqCounter (adapterRun transition (wireAppMachineToBroker initial) ins) =
     int (length (published (adapterRun transition (wireAppMachineToBroker initial) ins))) \<and>
   published (onRequest a) =
     published a @ [\<lparr> snapshot = actorSnapshot a, serverSeq = serverSeqCounter a + 1,
                      echoClientSeq = lastClientSeq a \<rparr>] \<and>
   published (wireAppMachineToBroker initial) =
     [\<lparr> snapshot = initial, serverSeq = 1, echoClientSeq = None \<rparr>]"
proof -
  have a: "transition (actorSnapshot a) ev = Inr s \<longrightarrow>
      onEvent transition a \<lparr>event = ev, clientSeq = i\<rparr> =
        (None, a\<lparr>lastClientSeq := Some i, actorSnapshot := s,
                 serverSeqCounter := serverSeqCounter a + 1,
                 published := published a @
                   [\<lparr> snapshot = s, serverSeq = serverSeqCounter a + 1, echoClientSeq = Some i \<rparr>]\<rparr>)"
    using onEvent_returns[of transition a ev s i] by blast
  have r: "published (onRequest a) =
     published a @ [\<lparr> snapshot = actorSnapshot a, serverSeq = serverSeqCounter a + 1,
                      echoClientSeq = lastClientSeq a \<rparr>]"
    by (simp add: onRequest_def publishSnapshot_fields)
  from a adapter_versions_increase[of transition initial ins]
    adapter_counter_counts[of transition initial ins] r
    wireAppMachineToBroker_published(1)[of initial]
  show ?thesis by (intro conjI)
qed

theorem C4_witness:
  "neverThrows (constReducer (JNumber 1)) (actorSnapshot (wireAppMachineToBroker (JNumber 0))) Reset
     = (Inr (JNumber 1) :: (exn \<times> jsval) + jsval) \<and>
   published (snd (onEvent (neverThrows (constReducer (JNumber 1)))
                      (wireAppMachineToBroker (JNumber 0)) \<lparr>event = Reset, clientSeq = 1\<rparr>)) =
     [\<lparr> snapshot = JNumber 0, serverSeq = 1, echoClientSeq = None \<rparr>,
      \<lparr> snapshot = JNumber 1, serverSeq = 2, echoClientSeq = Some 1 \<rparr>]"
proof -
  have t: "neverThrows (constReducer (JNumber 1)) (actorSnapshot (wireAppMachineToBroker (JNumber 0))) Reset
     = (Inr (JNumber 1) :: (exn \<times> jsval) + jsval)"
    by (simp add: neverThrows_def constReducer_def)
  show ?thesis
    using t
      C4_adapter_broadcasts[where transition = "neverThrows (constReducer (JNumber 1))"
        and a = "wireAppMachineToBroker (JNumber 0)" and ev = Reset and s = "JNumber 1" and i = 1]
    by (simp add: wireAppMachineToBroker_published)
qed

text \<open>
  Claim C6, as amended.  If the transition function throws on an inbound envelope
  \<open>{event, clientSeq = i}\<close>, the actor catches the failure inside \<open>send\<close> and the adapter
  goes on as for any action: it advances the version counter by one and publishes
  exactly one broadcast, which carries the snapshot the actor reports after the failure
  (the unchanged state when the failed transition left it as it was), the new version,
  and \<open>i\<close> as acknowledgment.  A client that accepts this broadcast, and whose handler
  returns, retires its pending entries with an id of at most \<open>i\<close>.
\<close>

theorem C6_transition_failure:
  "(transition (actorSnapshot a) ev = Inl (x, s') \<longrightarrow>
      onEvent transition a \<lparr>event = ev, clientSeq = i\<rparr> =
        (None, a\<lparr>lastClientSeq := Some i, actorSnapshot := s',
                 serverSeqCounter := serverSeqCounter a + 1,
                 published := published a @
                   [\<lparr> snapshot = s', serverSeq = serverSeqCounter a + 1,
                      echoClientSeq = Some i \<rparr>]\<rparr>)) \<and>
   (transition (actorSnapshot a) ev = Inl (x, actorSnapshot a) \<longrightarrow>
      actorSnapshot (snd (onEvent transition a \<lparr>event = ev, clientSeq = i\<rparr>)) = actorSnapshot a \<and>
      serverSeqCounter (snd (onEvent transition a \<lparr>event = ev, clientSeq = i\<rparr>)) =
        serverSeqCounter a + 1 \<and>
      published (snd (onEvent transition a \<lparr>event = ev, clientSeq = i\<rparr>)) =
        published a @ [\<lparr> snapshot = actorSnapshot a, serverSeq = serverSeqCounter a + 1,
                         echoClientSeq = Some i \<rparr>]) \<and>
   (\<not> serverSeqCounter a + 1 \<le> runesLastServerSeq rc \<longrightarrow>
      pendingEventsRune
        (handleSnapshotRunes runes opts rc
           \<lparr> snapshot = s', serverSeq = serverSeqCounter a + 1, echoClientSeq = Some i \<rparr>) =
        filter (\<lambda>e. i < clientSeq e) (pendingEventsRune rc)) \<and>
   (\<not> serverSeqCounter a + 1 \<le> lastServerSeq c \<and>
    fst (handleSnapshot copts c
           \<lparr> snapshot = s', serverSeq = serverSeqCounter a + 1, echoClientSeq = Some i \<rparr>) = None \<longrightarrow>
      pendingEvents
        (snd (handleSnapshot copts c
                \<lparr> snapshot = s', serverSeq = serverSeqCounter a + 1, echoClientSeq = Some i \<rparr>)) =
        filter (\<lambda>e. i < clientSeq e) (pendingEvents c))"
proof -
  have a: "transition (actorSnapshot a) ev = Inl (x, s') \<longrightarrow>
      onEvent transition a \<lparr>event = ev, clientSeq = i\<rparr> =
        (None, a\<lparr>lastClientSeq := Some i, actorSnapshot := s',
                 serverSeqCounter := serverSeqCounter a + 1,
                 published := published a @
                   [\<lparr> snapshot = s', serverSeq = serverSeqCounter a + 1,
                      echoClientSeq = Some i \<rparr>]\<rparr>)"
    using onEvent_failed[of transition a ev x s' i] by blast
  have b: "transition (actorSnapshot a) ev = Inl (x, actorSnapshot a) \<longrightarrow>
      actorSnapshot (snd (onEvent transition a \<lparr>event = ev, clientSeq = i\<rparr>)) = actorSnapshot a \<and>
      serverSeqCounter (snd (onEvent transition a \<lparr>event = ev, clientSeq = i\<rparr>)) =
        serverSeqCounter a + 1 \<and>
      published (snd (onEvent transition a \<lparr>event = ev, clientSeq = i\<rparr>)) =
        published a @ [\<lparr> snapshot = actorSnapshot a, serverSeq = serverSeqCounter a + 1,
                         echoClientSeq = Some i \<rparr>]"
    using onEvent_failed[of transition a ev x "actorSnapshot a" i] by simp
  have r: "\<not> serverSeqCounter a + 1 \<le> runesLastServerSeq rc \<longrightarrow>
      pendingEventsRune
        (handleSnapshotRunes runes opts rc
           \<lparr> snapshot = s', serverSeq = serverSeqCounter a + 1, echoClientSeq = Some i \<rparr>) =
        filter (\<lambda>e. i < clientSeq e) (pendingEventsRune rc)"
    by (simp add: handleSnapshotRunes_fresh_pending)
  have c: "\<not> serverSeqCounter a + 1 \<le> lastServerSeq c \<and>
    fst (handleSnapshot copts c
           \<lparr> snapshot = s', serverSeq = serverSeqCounter a + 1, echoClientSeq = Some i \<rparr>) = None \<longrightarrow>
      pendingEvents
        (snd (handleSnapshot copts c
                \<lparr> snapshot = s', serverSeq = serverSeqCounter a + 1, echoClientSeq = Some i \<rparr>)) =
        filter (\<lambda>e. i < clientSeq e) (pendingEvents c)"
    by (simp add: handleSnapshot_fresh_frame(5))
  from a b r c show ?thesis by (intro conjI)
qed

theorem C6_witness:
  "rejecting (Exn ''rejected'') (actorSnapshot (wireAppMachineToBroker (JNumber 0))) Reset
     = Inl (Exn ''rejected'', actorSnapshot (wireAppMachineToBroker (JNumber 0))) \<and>
   published (snd (onEvent (rejecting (Exn ''rejected'')) (wireAppMachineToBroker (JNumber 0))
                      \<lparr>event = Reset, clientSeq = 1\<rparr>)) =
     [\<lparr> snapshot = JNumber 0, serverSeq = 1, echoClientSeq = None \<rparr>,
      \<lparr> snapshot = JNumber 0, serverSeq = 2, echoClientSeq = Some 1 \<rparr>] \<and>
   \<not> serverSeqCounter (wireAppMachineToBroker (JNumber 0)) + 1 \<le> runesLastServerSeq sentRunes \<and>
   pendingEventsRune sentRunes = [\<lparr>event = Reset, clientSeq = 1\<rparr>] \<and>
   pendingEventsRune
     (handleSnapshotRunes svelteRunes failingOptions sentRunes
        \<lparr> snapshot = JNumber 0, serverSeq = 2, echoClientSeq = Some 1 \<rparr>) = []"
proof -
  have t: "rejecting (Exn ''rejected'') (actorSnapshot (wireAppMachineToBroker (JNumber 0))) Reset
     = Inl (Exn ''rejected'', actorSnapshot (wireAppMachineToBroker (JNumber 0)))"
    by (simp add: rejecting_def)
  have f: "\<not> serverSeqCounter (wireAppMachineToBroker (JNumber 0)) + 1 \<le> runesLastServerSeq sentRunes"
    by (simp add: wireAppMachineToBroker_published sentRunes_fields)
  have p: "published (snd (onEvent (rejecting (Exn ''rejected'')) (wireAppMachineToBroker (JNumber 0))
                      \<lparr>event = Reset, clientSeq = 1\<rparr>)) =
     [\<lparr> snapshot = JNumber 0, serverSeq = 1, echoClientSeq = None \<rparr>,
      \<lparr> snapshot = JNumber 0, serverSeq = 2, echoClientSeq = Some 1 \<rparr>]"
    using t
      C6_transition_failure[where transition = "rejecting (Exn ''rejected'')"
        and a = "wireAppMachineToBroker (JNumber 0)" and ev = Reset and x = "Exn ''rejected''"
        and s' = "JNumber 0" and i = 1 and rc = sentRunes and runes = svelteRunes
        and opts = failingOptions and c = subscribedSent and copts = failingOptions]
    by (simp add: wireAppMachineToBroker_published)
  have r: "pendingEventsRune
     (handleSnapshotRunes svelteRunes failingOptions sentRunes
        \<lparr> snapshot = JNumber 0, serverSeq = 2, echoClientSeq = Some 1 \<rparr>) = []"
    using f
      C6_transition_failure[where transition = "rejecting (Exn ''rejected'')"
        and a = "wireAppMachineToBroker (JNumber 0)" and ev = Reset and x = "Exn ''rejected''"
        and s' = "JNumber 0" and i = 1 and rc = sentRunes and runes = svelteRunes
        and opts = failingOptions and c = subscribedSent and copts = failingOptions]
    by (simp add: wireAppMachineToBroker_published sentRunes_fields)
  from t p f r show ?thesis by (simp add: sentRunes_fields)
qed

theorem C6_counterexample:
  "serverSeqCounter (snd (onEvent (rejecting (Exn ''rejected'')) (wireAppMachineToBroker (JNumber 0))
                            \<lparr>event = Reset, clientSeq = 1\<rparr>))
     \<noteq> serverSeqCounter (wireAppMachineToBroker (JNumber 0)) \<and>
   serverSeqCounter (wireAppMachineToBroker (JNumber 0)) = 1 \<and>
   serverSeqCounter (snd (onEvent (rejecting (Exn ''rejected'')) (wireAppMachineToBroker (JNumber 0))
                            \<lparr>event = Reset, clientSeq = 1\<rparr>)) = 2"
  by (simp add: onEvent_publishes publishSnapshot_fields actorSend_fields
      wireAppMachineToBroker_published)

section \<open>Retention and replay in the relay\<close>

lemma publish_retained:
  "map_of (retainedSnapshots (snd (publish beh b tp d))) t =
     (if sublist '':snapshot'' tp \<and> t = tp then Some d
      else map_of (retainedSnapshots b) t)"
  by (simp add: publish_def Let_def update_conv' split: option.splits prod.splits)

lemma subscribe_retained:
  "retainedSnapshots (snd (subscribe beh b tp h)) = retainedSnapshots b"
  by (simp add: subscribe_def Let_def split: option.splits)

lemma unsubscribe_retained:
  "retainedSnapshots (unsubscribe b tp h) = retainedSnapshots b"
  by (simp add: unsubscribe_def Let_def split: option.splits)

lemma attach_detach_retained:
  "retainedSnapshots (attachWebviewPanel b p) = retainedSnapshots b"
  "retainedSnapshots (detachWebviewPanel b p) = retainedSnapshots b"
  by (simp_all add: attachWebviewPanel_def detachWebviewPanel_def Let_def)

lemma clear_retained:
  "map_of (retainedSnapshots (clearRetainedSnapshot b tp)) t =
     (if t = tp then None else map_of (retainedSnapshots b) t)"
  by (simp add: clearRetainedSnapshot_def delete_conv')

lemma brokerRun_Cons: "brokerRun beh b (x # ops) = brokerRun beh (brokerStep beh b x) ops"
  by (simp add: brokerRun_def)

lemma brokerRun_retained:
  assumes "sublist '':snapshot'' tp"
  shows "map_of (retainedSnapshots (brokerRun beh b ops)) tp =
           lastPublished tp (map_of (retainedSnapshots b) tp) ops"
proof (induction ops arbitrary: b)
  case Nil
  show ?case by (simp add: brokerRun_def)
next
  case (Cons x ops)
  show ?case
  proof (cases x)
    case (Publish t d)
    then show ?thesis
      using assms by (auto simp: brokerRun_Cons Cons.IH publish_retained)
  next
    case (ClearRetainedSnapshot t)
    then show ?thesis by (auto simp: brokerRun_Cons Cons.IH clear_retained)
  qed (simp_all add: brokerRun_Cons Cons.IH subscribe_retained unsubscribe_retained
      attach_detach_retained)
qed

lemma subscribe_replays:
  assumes "map_of (retainedSnapshots b) tp = Some d" and "truthy d"
  shows "effects (snd (subscribe beh b tp h)) = effects b @ [Invoke h d]"
    and "fst (subscribe beh b tp h) = beh h d"
  using assms by (simp_all add: subscribe_def Let_def)

lemma subscribe_silent:
  assumes "map_of (retainedSnapshots b) tp = None \<or>
           (\<exists>d. map_of (retainedSnapshots b) tp = Some d \<and> \<not> truthy d)"
  shows "effects (snd (subscribe beh b tp h)) = effects b"
  using assms by (auto simp: subscribe_def Let_def)

text \<open>
  Late joiners.  On a channel with retention (its name contains \<open>:snapshot\<close>), let \<open>d\<close>
  be the payload most recently published in any history of publishes, subscribes,
  unsubscribes and panel attachments, not cleared since, and let \<open>d\<close> be truthy.  Then
  subscribing a handler calls that handler exactly once, inside \<open>subscribe\<close>, with \<open>d\<close>,
  and calls nothing else: no snapshot request is involved, and the handlers of the
  history may all have unsubscribed or thrown.  Unsubscribing never touches the
  retained value.
\<close>

lemma late_join_replay:
  "(sublist '':snapshot'' tp \<and>
    lastPublished tp (getRetainedSnapshot b tp) ops = Some d \<and> truthy d \<longrightarrow>
      effects (snd (subscribe beh (brokerRun beh b ops) tp h)) =
        effects (brokerRun beh b ops) @ [Invoke h d]) \<and>
   getRetainedSnapshot (unsubscribe b t h) tp = getRetainedSnapshot b tp"
proof -
  have "effects (snd (subscribe beh (brokerRun beh b ops) tp h)) =
        effects (brokerRun beh b ops) @ [Invoke h d]"
    if "sublist '':snapshot'' tp"
      "lastPublished tp (getRetainedSnapshot b tp) ops = Some d" "truthy d"
  proof -
    have "map_of (retainedSnapshots (brokerRun beh b ops)) tp = Some d"
      using that(1,2) by (simp add: brokerRun_retained getRetainedSnapshot_def)
    then show ?thesis using that(3) by (rule subscribe_replays(1))
  qed
  then show ?thesis
    by (simp add: getRetainedSnapshot_def unsubscribe_retained)
qed

lemma snapshot_topic: "sublist '':snapshot'' ''machine:app:snapshot''"
proof -
  have "''machine:app:snapshot'' = ''machine:app'' @ '':snapshot'' @ []" by simp
  then show ?thesis unfolding sublist_def by blast
qed

lemma zeroRetained_fields:
  "retainedSnapshots zeroRetained = [(''machine:app:snapshot'', JNumber 0)]"
  "effects zeroRetained = []"
  "webviews zeroRetained = []"
  by (simp_all add: zeroRetained_def publish_def snapshot_topic createBroker_def Let_def)

text \<open>
  Claim C5.  The broker does not keep it for a falsy payload.  After
  \<open>publish('machine:app:snapshot', 0)\<close> on a fresh broker the payload \<open>0\<close> is retained,
  yet a subsequent \<open>subscribe\<close> on that channel calls no handler: the replay is guarded
  by \<open>if (retained)\<close>, which tests the payload and not its presence.  The replay of
  \<open>attachWebviewPanel\<close> has no such test and sends the retained \<open>0\<close> to the new panel.
\<close>

theorem C5_falsy_payload_not_replayed:
  "getRetainedSnapshot zeroRetained ''machine:app:snapshot'' = Some (JNumber 0) \<and>
   fst (subscribe quiet zeroRetained ''machine:app:snapshot'' 1) = None \<and>
   effects (snd (subscribe quiet zeroRetained ''machine:app:snapshot'' 1)) = [] \<and>
   effects (attachWebviewPanel zeroRetained 7) =
     [PostMessage 7 ''machine:app:snapshot'' (JNumber 0)]"
  by (simp add: getRetainedSnapshot_def subscribe_def attachWebviewPanel_def
      zeroRetained_fields setAdd_def Let_def)

section \<open>Handlers that throw\<close>

lemma forEachHandler_stops:
  assumes "beh h d = Some x" and "\<forall>p \<in> set pre. beh p d = None"
  shows "forEachHandler beh (pre @ h # post) d log = (Some x, log @ map (\<lambda>p. Invoke p d) (pre @ [h]))"
  using assms by (induction pre arbitrary: log) simp_all

lemma forEachHandler_completes:
  assumes "\<forall>p \<in> set hs. beh p d = None"
  shows "forEachHandler beh hs d log = (None, log @ map (\<lambda>p. Invoke p d) hs)"
  using assms by (induction hs arbitrary: log) simp_all

lemma forEachIsolated_all:
  "forEachIsolated beh hs d log =
     log @ concat (map (\<lambda>h. Invoke h d # (case beh h d of None \<Rightarrow> [] | Some x \<Rightarrow> [ConsoleError x])) hs)"
  by (induction hs arbitrary: log) (simp_all split: option.splits)

lemma events_topic: "\<not> sublist '':snapshot'' ''machine:app:events''"
  by code_simp

lemma twoHandlerBroker_fields:
  "webviews twoHandlerBroker = [7]"
  "retainedSnapshots twoHandlerBroker = []"
  "topicHandlers twoHandlerBroker = [(''machine:app:events'', [1, 2])]"
  "effects twoHandlerBroker = []"
  by (simp_all add: twoHandlerBroker_def subscribe_def attachWebviewPanel_def createBroker_def
      setAdd_def Let_def)

lemma twoHandlerAdapter_fields:
  "subscriptions twoHandlerAdapter = [(''machine:app:events'', [1, 2])]"
  "adapterEffects twoHandlerAdapter = []"
  by (simp_all add: twoHandlerAdapter_def adapterSubscribe_def setAdd_def Let_def)

text \<open>
  Claim C8.  The broker's \<open>publish\<close> calls the handlers of a topic in a plain \<open>forEach\<close>:
  with handlers \<open>1\<close> and \<open>2\<close> on a topic and handler \<open>1\<close> throwing, \<open>publish\<close> calls handler
  \<open>1\<close>, then ends with its exception; handler \<open>2\<close> is not called and the attached panel
  gets no message.  The listener of the webview adapter, given the same handlers and
  payload, calls both and logs the exception.
\<close>

theorem C8_publish_stops_at_throwing_handler:
  "publish firstThrows twoHandlerBroker ''machine:app:events'' resetEnvelope =
     (Some (Exn ''handler failed''), twoHandlerBroker\<lparr>effects := [Invoke 1 resetEnvelope]\<rparr>) \<and>
   map_of (topicHandlers twoHandlerBroker) ''machine:app:events'' = Some [1, 2] \<and>
   webviews twoHandlerBroker = [7] \<and>
   adapterEffects
     (onMessage firstThrows twoHandlerAdapter
        \<lparr> messageType = PublishMessage, topic = ''machine:app:events'', data = resetEnvelope \<rparr>) =
     [Invoke 1 resetEnvelope, ConsoleError (Exn ''handler failed''), Invoke 2 resetEnvelope]"
proof -
  have p: "publish firstThrows twoHandlerBroker ''machine:app:events'' resetEnvelope =
     (Some (Exn ''handler failed''), twoHandlerBroker\<lparr>effects := [Invoke 1 resetEnvelope]\<rparr>)"
    by (simp add: publish_def events_topic twoHandlerBroker_fields firstThrows_def Let_def)
  have m: "adapterEffects
     (onMessage firstThrows twoHandlerAdapter
        \<lparr> messageType = PublishMessage, topic = ''machine:app:events'', data = resetEnvelope \<rparr>) =
     [Invoke 1 resetEnvelope, ConsoleError (Exn ''handler failed''), Invoke 2 resetEnvelope]"
    by (simp add: onMessage_def twoHandlerAdapter_fields firstThrows_def)
  from p m show ?thesis by (simp add: twoHandlerBroker_fields)
qed

end
